theory Spec2Isabelle
  imports Complex_Main
begin

section \<open>Errors\<close>

text \<open>
  The exceptions \<^verbatim>\<open>color.py\<close> can raise.  The first four are all Python's
  \<^verbatim>\<open>ValueError\<close>; they are kept apart by where they are raised:
  \<^item> \<open>InvalidColor c\<close> is \<^verbatim>\<open>ValueError('%s: invalid color' % color)\<close> of \<^verbatim>\<open>rgba\<close>;
  \<^item> \<open>IntLiteralError\<close> is the \<^verbatim>\<open>ValueError\<close> of \<^verbatim>\<open>int(s, 16)\<close>;
  \<^item> \<open>FloatLiteralError\<close> is the \<^verbatim>\<open>ValueError\<close> of \<^verbatim>\<open>float(s)\<close>;
  \<^item> \<open>SliceStepError\<close> is the \<^verbatim>\<open>ValueError\<close> of a slice whose step is zero;
  \<^item> \<open>FloatToIntError\<close> is the exception of \<^verbatim>\<open>int(x)\<close> on a float that is infinite or NaN;
  \<^item> \<open>FormatError\<close> is the exception of the formats \<^verbatim>\<open>%02x\<close> and \<^verbatim>\<open>%d\<close> on a float
    that is infinite or NaN.
\<close>

datatype error =
    InvalidColor string
  | IntLiteralError
  | FloatLiteralError
  | SliceStepError
  | IndexError
  | ZeroDivisionError
  | FloatToIntError
  | FormatError

text \<open>A function returns \<open>Inr\<close> its value or \<open>Inl\<close> the exception it raises;
  \<open>ebind m f\<close> runs \<open>f\<close> on the value of \<open>m\<close>, unless \<open>m\<close> raised.\<close>

definition ebind :: "error + 'a \<Rightarrow> ('a \<Rightarrow> error + 'b) \<Rightarrow> error + 'b" where
  "ebind m f = (case m of Inl e \<Rightarrow> Inl e | Inr x \<Rightarrow> f x)"

section \<open>Python sequences\<close>

text \<open>\<^verbatim>\<open>xs[i]\<close> on a tuple or list: a negative index counts from the end, an index
  outside \<open>-len .. len-1\<close> raises \<^verbatim>\<open>IndexError\<close>.\<close>

definition getitem :: "'a list \<Rightarrow> int \<Rightarrow> error + 'a" where
  "getitem xs i =
     (let n = int (length xs); j = (if i < 0 then i + n else i)
      in if 0 \<le> j \<and> j < n then Inr (xs ! nat j) else Inl IndexError)"

text \<open>\<^verbatim>\<open>xs[start:stop:step]\<close>: the bounds are adjusted to the length as CPython's
  slice objects do, then the selected positions are read.  A step of zero raises.\<close>

definition adjust_index :: "int \<Rightarrow> int \<Rightarrow> int \<Rightarrow> int" where
  "adjust_index n step i =
     (if i < 0 then (if i + n < 0 then (if step < 0 then -1 else 0) else i + n)
      else if i \<ge> n then (if step < 0 then n - 1 else n)
      else i)"

definition slice_step :: "int option \<Rightarrow> int" where
  "slice_step step = (case step of None \<Rightarrow> 1 | Some s \<Rightarrow> s)"

definition slice_start :: "int \<Rightarrow> int \<Rightarrow> int option \<Rightarrow> int" where
  "slice_start n st start =
     (case start of None \<Rightarrow> (if st < 0 then n - 1 else 0) | Some i \<Rightarrow> adjust_index n st i)"

definition slice_stop :: "int \<Rightarrow> int \<Rightarrow> int option \<Rightarrow> int" where
  "slice_stop n st stop =
     (case stop of None \<Rightarrow> (if st < 0 then - 1 else n) | Some i \<Rightarrow> adjust_index n st i)"

definition slice_length :: "int \<Rightarrow> int \<Rightarrow> int \<Rightarrow> int" where
  "slice_length lo hi st =
     (if st < 0 then (if hi < lo then (lo - hi - 1) div (- st) + 1 else 0)
      else (if lo < hi then (hi - lo - 1) div st + 1 else 0))"

definition slice_indices :: "int \<Rightarrow> int option \<Rightarrow> int option \<Rightarrow> int option \<Rightarrow> error + int list" where
  "slice_indices n start stop step =
     (let st = slice_step step
      in if st = 0 then Inl SliceStepError
         else
           let lo = slice_start n st start;
               hi = slice_stop n st stop
           in Inr (map (\<lambda>k. lo + int k * st) [0 ..< nat (slice_length lo hi st)]))"

definition getslice :: "'a list \<Rightarrow> int option \<Rightarrow> int option \<Rightarrow> int option \<Rightarrow> error + 'a list" where
  "getslice xs start stop step =
     (case slice_indices (int (length xs)) start stop step of
        Inl e \<Rightarrow> Inl e
      | Inr js \<Rightarrow> Inr (map (\<lambda>j. xs ! nat j) js))"

section \<open>Theme palettes: class \<^verbatim>\<open>_MSO\<close>\<close>

text \<open>The class attribute \<^verbatim>\<open>_lookup\<close>, a dictionary from slot names to positions.\<close>

definition lookup :: "string \<rightharpoonup> int" where
  "lookup = map_of
     [(''accent_1'', 0), (''accent_2'', 1), (''accent_3'', 2), (''accent_4'', 3),
      (''accent_5'', 4), (''accent_6'', 5), (''light_2'', 6), (''dark_2'', 7),
      (''light_1'', 8), (''dark_1'', 9)]"

text \<open>An \<^verbatim>\<open>_MSO\<close> object holds the tuple \<^verbatim>\<open>self.values\<close> of its colours (the field is \<open>mso_values\<close> here).\<close>

record MSO =
  mso_values :: "string list"

text \<open>The keys \<^verbatim>\<open>__getitem__\<close> tells apart: an \<^verbatim>\<open>int\<close>, a \<^verbatim>\<open>slice\<close> (each of its
  three fields an integer or \<^verbatim>\<open>None\<close>) and a string.  What it returns: a colour, a tuple
  of colours, or \<^verbatim>\<open>None\<close> when no branch of the method returns.\<close>

datatype key = KInt int | KSlice "int option" "int option" "int option" | KStr string

datatype item = PyNone | Item string | Items "string list"

definition MSO_getitem :: "MSO \<Rightarrow> key \<Rightarrow> error + item" where
  "MSO_getitem self k =
     (case k of
        KInt i \<Rightarrow> map_sum id Item (getitem (mso_values self) i)
      | KSlice a b c \<Rightarrow> map_sum id Items (getslice (mso_values self) a b c)
      | KStr s \<Rightarrow>
          (case lookup s of
             Some i \<Rightarrow> map_sum id Item (getitem (mso_values self) i)
           | None \<Rightarrow> Inr PyNone))"

definition Office :: MSO where
  "Office = \<lparr> mso_values = [''#4f81bd'', ''#c0504d'', ''#9bbb59'', ''#8064a2'', ''#4bacc6'',
     ''#f79646'', ''#eeece1'', ''#1f497d'', ''#ffffff'', ''#000000''] \<rparr>"

definition Adjacency :: MSO where
  "Adjacency = \<lparr> mso_values = [''#A9A57C'', ''#9CBEBD'', ''#D2CB6C'', ''#95A39D'', ''#C89F5D'',
     ''#B1A089'', ''#DFDCB7'', ''#675E47'', ''#FFFFFF'', ''#2F2B20'', ''#D25814'', ''#849A0A''] \<rparr>"

section \<open>Distinct colours\<close>

definition distincts :: "string list" where
  "distincts =
     [''#1f77b4'', ''#aec7e8'',
      ''#ff7f0e'', ''#ffbb78'',
      ''#2ca02c'', ''#98df8a'',
      ''#d62728'', ''#ff9896'',
      ''#9467bd'', ''#c5b0d5'',
      ''#8c564b'', ''#c49c94'',
      ''#e377c2'', ''#f7b6d2'',
      ''#7f7f7f'', ''#c7c7c7'',
      ''#bcbd22'', ''#dbdb8d'',
      ''#17becf'', ''#9edae5'']"

text \<open>\<^verbatim>\<open>distinct(n)\<close>.  \<^verbatim>\<open>range(0, n)\<close> is \<open>[0..n-1]\<close>, empty for \<open>n \<le> 0\<close>; in the first
  branch \<open>2*i \<le> 18\<close>, so the read is in range.  \<^verbatim>\<open>_distincts[:n]\<close> with \<open>10 < n\<close> is
  the prefix of length \<open>n\<close>.\<close>

definition distinct' :: "int \<Rightarrow> string list" where
  "distinct' n =
     (if n \<le> 10 then map (\<lambda>i. distincts ! nat (2 * i)) [0 .. n - 1]
      else if n \<le> 20 then take (nat n) distincts
      else distincts)"

section \<open>Strings and literals\<close>

definition startswith :: "string \<Rightarrow> string \<Rightarrow> bool" where
  "startswith s p = (take (length p) s = p)"

definition endswith :: "string \<Rightarrow> string \<Rightarrow> bool" where
  "endswith s p = (length p \<le> length s \<and> drop (length s - length p) s = p)"

text \<open>\<^verbatim>\<open>s[a:b]\<close> for constants \<open>0 \<le> a \<le> b\<close>.\<close>

definition substr :: "string \<Rightarrow> nat \<Rightarrow> nat \<Rightarrow> string" where
  "substr s a b = drop a (take b s)"

text \<open>\<^verbatim>\<open>s.split(sep)\<close> for a separator of one character.\<close>

fun str_split :: "char \<Rightarrow> string \<Rightarrow> string list" where
  "str_split sep [] = [[]]"
| "str_split sep (c # cs) =
     (if c = sep then [] # str_split sep cs
      else (case str_split sep cs of
              [] \<Rightarrow> [[c]]
            | p # ps \<Rightarrow> (c # p) # ps))"

definition is_digit :: "char \<Rightarrow> bool" where
  "is_digit c = (48 \<le> (of_char c :: nat) \<and> (of_char c :: nat) \<le> 57)"

definition digit_val :: "char \<Rightarrow> nat" where
  "digit_val c = of_char c - 48"

text \<open>The value of a hexadecimal digit, in either case.\<close>

definition hexval :: "char \<Rightarrow> nat option" where
  "hexval c =
     (let n = (of_char c :: nat)
      in if 48 \<le> n \<and> n \<le> 57 then Some (n - 48)
         else if 97 \<le> n \<and> n \<le> 102 then Some (n - 87)
         else if 65 \<le> n \<and> n \<le> 70 then Some (n - 55)
         else None)"

text \<open>The class \<^verbatim>\<open>\w\<close> of a byte-string pattern: letters, digits and the underscore.\<close>

definition is_word :: "char \<Rightarrow> bool" where
  "is_word c =
     (let n = (of_char c :: nat)
      in (48 \<le> n \<and> n \<le> 57) \<or> (65 \<le> n \<and> n \<le> 90) \<or> (97 \<le> n \<and> n \<le> 122) \<or> n = 95)"

text \<open>White space as \<^verbatim>\<open>int()\<close> strips it: space, and the controls 9 to 13.\<close>

definition is_space :: "char \<Rightarrow> bool" where
  "is_space c = ((of_char c :: nat) = 32 \<or> (9 \<le> (of_char c :: nat) \<and> (of_char c :: nat) \<le> 13))"

definition strip :: "string \<Rightarrow> string" where
  "strip s = rev (dropWhile is_space (rev (dropWhile is_space s)))"

text \<open>\<^verbatim>\<open>int(s, 16)\<close>, as \<^verbatim>\<open>rgba\<close> calls it on slices of at most two characters:
  surrounding white space is dropped, one sign is allowed, then at least one
  hexadecimal digit must follow and nothing else (on two characters the prefix
  \<^verbatim>\<open>0x\<close> alone is refused like any other non-digit).\<close>

definition int16 :: "string \<Rightarrow> error + int" where
  "int16 s =
     (let t = strip s;
          neg = (case t of [] \<Rightarrow> False | c # _ \<Rightarrow> c = CHR ''-'');
          u = (case t of [] \<Rightarrow> [] | c # r \<Rightarrow> if c = CHR ''-'' \<or> c = CHR ''+'' then r else t)
      in if u = [] \<or> \<not> list_all (\<lambda>c. hexval c \<noteq> None) u then Inl IntLiteralError
         else
           let m = int (foldl (\<lambda>a c. 16 * a + the (hexval c)) 0 u)
           in Inr (if neg then - m else m))"


section \<open>Python floats\<close>

text \<open>
  A Python float is an IEEE 754 double: a finite number, an infinity or NaN.  A finite
  float is modelled by the real number it denotes (the sign of a zero is not kept: no
  comparison and no arithmetic of this module tells \<^verbatim>\<open>-0.0\<close> from \<^verbatim>\<open>0.0\<close>).  A Python
  \<^verbatim>\<open>int\<close> that meets a float in an operation is converted to the float of the same value
  first; the integers of this module (0, 1, 6, 15, 100, 255, 360, two hexadecimal digits)
  are all floats exactly.
\<close>

datatype double = Fin real | PInf | NInf | Nan

text \<open>The number of binary digits of a natural number.\<close>

fun bits :: "nat \<Rightarrow> nat" where
  "bits n = (if n = 0 then 0 else Suc (bits (n div 2)))"

declare bits.simps [simp del]

text \<open>For \<open>a > 0\<close>, the exponent \<open>k\<close> with \<open>2^k \<le> a < 2^(k+1)\<close>.\<close>

definition ilog2 :: "real \<Rightarrow> int" where
  "ilog2 a = (if 1 \<le> a then int (bits (nat \<lfloor>a\<rfloor>)) - 1
              else - int (bits (nat (\<lceil>1 / a\<rceil> - 1))))"

text \<open>The nearest integer, a tie going to the even one.\<close>

definition round_even :: "real \<Rightarrow> int" where
  "round_even y =
     (let f = \<lfloor>y\<rfloor>; d = y - of_int f
      in if d < 1 / 2 then f else if d > 1 / 2 then f + 1
         else if even f then f else f + 1)"

text \<open>The exponent of the unit in the last place of a double near \<open>x \<noteq> 0\<close>: 53 significant
  bits, and nothing finer than \<open>2^-1074\<close> (the subnormal numbers).\<close>

definition ulp_exp :: "real \<Rightarrow> int" where
  "ulp_exp x = max (ilog2 \<bar>x\<bar> - 52) (- 1074)"

text \<open>Rounding a real number to the nearest double, ties to even, the exponent unbounded
  above.\<close>

definition fl :: "real \<Rightarrow> real" where
  "fl x = (if x = 0 then 0
           else of_int (round_even (x / 2 powi ulp_exp x)) * 2 powi ulp_exp x)"

text \<open>The float that an operation returns whose exact result is \<open>x\<close>: the nearest double, or
  an infinity when that is beyond the largest double.\<close>

definition rnd :: "real \<Rightarrow> double" where
  "rnd x = (let y = fl x
            in if y \<ge> 2 ^ 1024 then PInf else if y \<le> - (2 ^ 1024) then NInf else Fin y)"

text \<open>Comparisons: \<^verbatim>\<open>a < b\<close> and \<^verbatim>\<open>a <= b\<close>, false as soon as one side is NaN.\<close>

fun fless :: "double \<Rightarrow> double \<Rightarrow> bool" where
  "fless (Fin a) (Fin b) = (a < b)"
| "fless Nan _ = False"
| "fless _ Nan = False"
| "fless PInf _ = False"
| "fless _ NInf = False"
| "fless _ PInf = True"
| "fless NInf _ = True"

definition fleq :: "double \<Rightarrow> double \<Rightarrow> bool" where
  "fleq a b = (fless a b \<or> (a = b \<and> a \<noteq> Nan))"

text \<open>Arithmetic: \<^verbatim>\<open>-a\<close>, \<^verbatim>\<open>a + b\<close>, \<^verbatim>\<open>a - b\<close>, \<^verbatim>\<open>a * b\<close>, and \<^verbatim>\<open>a / b\<close>, which raises
  \<^verbatim>\<open>ZeroDivisionError\<close> when \<open>b\<close> is zero.\<close>

fun fneg :: "double \<Rightarrow> double" where
  "fneg (Fin a) = Fin (- a)"
| "fneg PInf = NInf"
| "fneg NInf = PInf"
| "fneg Nan = Nan"

fun fadd :: "double \<Rightarrow> double \<Rightarrow> double" where
  "fadd (Fin a) (Fin b) = rnd (a + b)"
| "fadd Nan _ = Nan"
| "fadd _ Nan = Nan"
| "fadd PInf NInf = Nan"
| "fadd NInf PInf = Nan"
| "fadd PInf _ = PInf"
| "fadd NInf _ = NInf"
| "fadd _ PInf = PInf"
| "fadd _ NInf = NInf"

definition fsub :: "double \<Rightarrow> double \<Rightarrow> double" where
  "fsub a b = fadd a (fneg b)"

definition negative :: "double \<Rightarrow> bool" where
  "negative a = fless a (Fin 0)"

fun fmul :: "double \<Rightarrow> double \<Rightarrow> double" where
  "fmul (Fin a) (Fin b) = rnd (a * b)"
| "fmul Nan _ = Nan"
| "fmul _ Nan = Nan"
| "fmul a b = (if a = Fin 0 \<or> b = Fin 0 then Nan
               else if negative a = negative b then PInf else NInf)"

fun fdiv :: "double \<Rightarrow> double \<Rightarrow> error + double" where
  "fdiv a (Fin b) =
     (if b = 0 then Inl ZeroDivisionError
      else case a of
             Fin x \<Rightarrow> Inr (rnd (x / b))
           | Nan \<Rightarrow> Inr Nan
           | _ \<Rightarrow> Inr (if negative a = (b < 0) then PInf else NInf))"
| "fdiv (Fin a) PInf = Inr (Fin 0)"
| "fdiv (Fin a) NInf = Inr (Fin 0)"
| "fdiv _ _ = Inr Nan"

text \<open>\<^verbatim>\<open>x % 1\<close>: for a finite \<open>x\<close> the C function \<^verbatim>\<open>fmod\<close> gives \<open>x - \<lceil>x\<rceil>\<close> or \<open>x - \<lfloor>x\<rfloor>\<close>
  exactly, and Python adds 1 to a negative remainder; both are \<open>frac x\<close>, rounded.  An
  infinity and NaN give NaN.\<close>

fun fmod1 :: "double \<Rightarrow> double" where
  "fmod1 (Fin x) = rnd (frac x)"
| "fmod1 _ = Nan"

text \<open>\<^verbatim>\<open>int(x)\<close> on a float truncates towards zero; it raises on an infinity and on NaN.\<close>

definition trunc :: "real \<Rightarrow> int" where
  "trunc x = (if 0 \<le> x then \<lfloor>x\<rfloor> else \<lceil>x\<rceil>)"

fun float_to_int :: "double \<Rightarrow> error + int" where
  "float_to_int (Fin x) = Inr (trunc x)"
| "float_to_int _ = Inl FloatToIntError"

text \<open>
  \<^verbatim>\<open>float(s)\<close>, as \<^verbatim>\<open>rgba\<close> calls it on the tokens of the scan \<^verbatim>\<open>[0-9\.%]+\<close>:
  digits with at most one dot and at least one digit are a decimal number, and the
  result is the double nearest to it; anything else made of these characters is refused.\<close>

definition decimal :: "string \<Rightarrow> nat" where
  "decimal ds = foldl (\<lambda>a c. 10 * a + digit_val c) 0 ds"

definition pyfloat :: "string \<Rightarrow> error + double" where
  "pyfloat s =
     (let ip = takeWhile is_digit s; rest = dropWhile is_digit s
      in case rest of
           [] \<Rightarrow> if ip = [] then Inl FloatLiteralError else Inr (rnd (real (decimal ip)))
         | c # fp \<Rightarrow>
             if c = CHR ''.'' \<and> list_all is_digit fp \<and> (ip \<noteq> [] \<or> fp \<noteq> [])
             then Inr (rnd (real (decimal ip) + real (decimal fp) / 10 ^ length fp))
             else Inl FloatLiteralError)"

text \<open>\<^verbatim>\<open>re.findall(r'[0-9\.%]+', s)\<close>: the maximal runs of digits, dots and percent signs.\<close>

definition is_tok :: "char \<Rightarrow> bool" where
  "is_tok c = (is_digit c \<or> c = CHR ''.'' \<or> c = CHR ''%'')"

function findall :: "string \<Rightarrow> string list" where
  "findall [] = []"
| "findall (c # cs) =
     (if is_tok c then (c # takeWhile is_tok cs) # findall (dropWhile is_tok cs)
      else findall cs)"
  by pat_completeness auto
termination
  by (relation "measure length") (auto simp: length_dropWhile_le less_Suc_eq_le)

section \<open>Parsing a colour: \<^verbatim>\<open>rgba\<close>\<close>

type_synonym color = "double \<times> double \<times> double \<times> double"

text \<open>The dictionary \<^verbatim>\<open>_colornames\<close>.  (\<^verbatim>\<open>rgba\<close> appends the alpha to the list stored
  in the dictionary itself; a later call finds four components there, with the same
  alpha, and returns the same tuple, so the table is modelled as a constant.)\<close>

definition colornames :: "string \<rightharpoonup> double list" where
  "colornames = map_of
     [(''black'',   map Fin [0, 0, 0]),
      (''silver'',  map Fin [192, 192, 192]),
      (''gray'',    map Fin [128, 128, 128]),
      (''white'',   map Fin [255, 255, 255]),
      (''maroon'',  map Fin [128, 0, 0]),
      (''red'',     map Fin [255, 0, 0]),
      (''purple'',  map Fin [128, 0, 128]),
      (''fuchsia'', map Fin [255, 0, 255]),
      (''green'',   map Fin [0, 128, 0]),
      (''lime'',    map Fin [0, 255, 0]),
      (''olive'',   map Fin [128, 128, 0]),
      (''yellow'',  map Fin [255, 255, 0]),
      (''navy'',    map Fin [0, 0, 128]),
      (''blue'',    map Fin [0, 0, 255]),
      (''teal'',    map Fin [0, 128, 128]),
      (''aqua'',    map Fin [0, 255, 255])]"

text \<open>\<^verbatim>\<open>colorsys.hsv_to_rgb\<close> of Python's standard library.\<close>

definition hsv_to_rgb :: "double \<Rightarrow> double \<Rightarrow> double \<Rightarrow> error + double \<times> double \<times> double" where
  "hsv_to_rgb h s v =
     (if s = Fin 0 then Inr (v, v, v)
      else
        ebind (float_to_int (fmul h (Fin 6))) (\<lambda>i.
          let f = fsub (fmul h (Fin 6)) (Fin (of_int i));
              p = fmul v (fsub (Fin 1) s);
              q = fmul v (fsub (Fin 1) (fmul s f));
              t = fmul v (fsub (Fin 1) (fmul s (fsub (Fin 1) f)));
              i = i mod 6
          in if i = 0 then Inr (v, t, p)
             else if i = 1 then Inr (q, v, p)
             else if i = 2 then Inr (p, v, t)
             else if i = 3 then Inr (p, q, v)
             else if i = 4 then Inr (t, p, v)
             else Inr (v, p, q)))"

text \<open>The loop of the \<^verbatim>\<open>rgb(\<close> branch over the enumerated tokens; \<open>i\<close> is the index of
  the first token of the list.  The first token that \<^verbatim>\<open>float\<close> refuses ends the loop.\<close>

fun rgb_components :: "nat \<Rightarrow> string list \<Rightarrow> error + double list" where
  "rgb_components i [] = Inr []"
| "rgb_components i (v # vs) =
     ebind (if endswith v ''%'' then ebind (pyfloat (butlast v)) (\<lambda>x. fdiv x (Fin 100))
            else if i < 3 then ebind (pyfloat v) (\<lambda>x. fdiv x (Fin 255))
            else pyfloat v) (\<lambda>x.
       map_sum id (\<lambda>xs. x # xs) (rgb_components (Suc i) vs))"

text \<open>The loop of the \<^verbatim>\<open>hsl(\<close> branch.\<close>

fun hsl_components :: "nat \<Rightarrow> string list \<Rightarrow> error + double list" where
  "hsl_components i [] = Inr []"
| "hsl_components i (v # vs) =
     ebind (if endswith v ''%'' then ebind (pyfloat (butlast v)) (\<lambda>x. fdiv x (Fin 100))
            else if i = 0 then ebind (pyfloat v) (\<lambda>x. map_sum id fmod1 (fdiv x (Fin 360)))
            else pyfloat v) (\<lambda>x.
       map_sum id (\<lambda>xs. x # xs) (hsl_components (Suc i) vs))"

text \<open>The assignment \<^verbatim>\<open>result[0], result[1], result[2] = hsv_to_rgb(result[0], result[1],
  result[2])\<close>: the three reads come first and raise on a list of fewer than three.\<close>

definition hsl_convert :: "double list \<Rightarrow> error + double list" where
  "hsl_convert result =
     ebind (getitem result 0) (\<lambda>h.
     ebind (getitem result 1) (\<lambda>s.
     ebind (getitem result 2) (\<lambda>v.
     ebind (hsv_to_rgb h s v) (\<lambda>(r, g, b).
       Inr (r # g # b # drop 3 result)))))"

text \<open>\<^verbatim>\<open>0 if v < 0 else 1 if v > 1 else v\<close>.\<close>

definition clamp :: "double \<Rightarrow> double" where
  "clamp v = (if fless v (Fin 0) then Fin 0 else if fless (Fin 1) v then Fin 1 else v)"

text \<open>The components \<^verbatim>\<open>rgba\<close> collects in \<^verbatim>\<open>result\<close> before it checks their number.\<close>

definition rgba_components :: "string \<Rightarrow> error + double list" where
  "rgba_components color =
     (if startswith color ''#'' then
        (if length color = 7 then
           ebind (int16 (substr color 1 3)) (\<lambda>r.
           ebind (fdiv (Fin (of_int r)) (Fin 255)) (\<lambda>r'.
           ebind (int16 (substr color 3 5)) (\<lambda>g.
           ebind (fdiv (Fin (of_int g)) (Fin 255)) (\<lambda>g'.
           ebind (int16 (substr color 5 7)) (\<lambda>b.
           ebind (fdiv (Fin (of_int b)) (Fin 255)) (\<lambda>b'.
             Inr [r', g', b']))))))
         else if length color = 4 then
           ebind (int16 (substr color 1 2)) (\<lambda>r.
           ebind (fdiv (Fin (of_int r)) (Fin 15)) (\<lambda>r'.
           ebind (int16 (substr color 2 3)) (\<lambda>g.
           ebind (fdiv (Fin (of_int g)) (Fin 15)) (\<lambda>g'.
           ebind (int16 (substr color 3 4)) (\<lambda>b.
           ebind (fdiv (Fin (of_int b)) (Fin 15)) (\<lambda>b'.
             Inr [r', g', b']))))))
         else Inr [])
      else if startswith color ''rgb('' \<or> startswith color ''rgba('' then
        ebind (getitem (str_split (CHR ''('') color) 1) (\<lambda>body.
          rgb_components 0 (findall body))
      else if startswith color ''hsl('' \<or> startswith color ''hsla('' then
        ebind (getitem (str_split (CHR ''('') color) 1) (\<lambda>body.
        ebind (hsl_components 0 (findall body)) (\<lambda>result.
          hsl_convert result))
      else (case colornames color of Some v \<Rightarrow> Inr v | None \<Rightarrow> Inr []))"

definition rgba :: "string \<Rightarrow> error + color" where
  "rgba color =
     ebind (rgba_components color) (\<lambda>result0.
       let result = (if length result0 = 3 then result0 @ [Fin 1] else result0)
       in if length result \<noteq> 4 then Inl (InvalidColor color)
          else Inr (clamp (result ! 0), clamp (result ! 1), clamp (result ! 2), clamp (result ! 3)))"

section \<open>Formatting a colour: \<^verbatim>\<open>name\<close>\<close>

definition hexchar :: "nat \<Rightarrow> char" where
  "hexchar d = char_of (if d < 10 then 48 + d else 87 + d)"

text \<open>\<^verbatim>\<open>'%02x' % k\<close> for \<open>k < 256\<close>.\<close>

definition hex2 :: "nat \<Rightarrow> string" where
  "hex2 k = [hexchar (k div 16), hexchar (k mod 16)]"

text \<open>\<^verbatim>\<open>'%d' % k\<close> for \<open>k < 1000\<close>.\<close>

definition dec3 :: "nat \<Rightarrow> string" where
  "dec3 k =
     (if k < 10 then [hexchar k]
      else if k < 100 then [hexchar (k div 10), hexchar (k mod 10)]
      else [hexchar (k div 100), hexchar (k div 10 mod 10), hexchar (k mod 10)])"

text \<open>The integer that \<^verbatim>\<open>%02x\<close> and \<^verbatim>\<open>%d\<close> format for a float argument: the float
  truncated.  In \<^verbatim>\<open>name\<close> the argument is \<open>255 * c\<close> for a clamped \<open>c\<close>, which lies between
  0 and 255 or is NaN.\<close>

fun format_int :: "double \<Rightarrow> error + nat" where
  "format_int (Fin y) = Inr (nat (trunc y))"
| "format_int _ = Inl FormatError"

text \<open>\<^verbatim>\<open>'%0.2f' % a\<close> for a clamped \<open>a\<close> that is not \<open>\<ge> 1\<close>, that is \<open>0 \<le> a < 1\<close> or NaN: the
  nearest hundredth, a tie going to the even one.\<close>

fun fmt_2f :: "double \<Rightarrow> string" where
  "fmt_2f (Fin a) = (let n = nat (round_even (100 * a))
                     in [hexchar (n div 100), CHR ''.'', hexchar (n div 10 mod 10), hexchar (n mod 10)])"
| "fmt_2f PInf = ''inf''"
| "fmt_2f NInf = ''-inf''"
| "fmt_2f Nan = ''nan''"

text \<open>\<^verbatim>\<open>re.sub(r'#(\w)\1(\w)\2(\w)\3', r'#\1\2\3', s)\<close>: scanning from the left, a hash
  followed by three doubled word characters is replaced by the hash and the three
  characters, and the scan goes on after the match.\<close>

fun shorten :: "string \<Rightarrow> string" where
  "shorten (h # a # a' # b # b' # c # c' # rest) =
     (if h = CHR ''#'' \<and> is_word a \<and> a' = a \<and> is_word b \<and> b' = b \<and> is_word c \<and> c' = c
      then CHR ''#'' # a # b # c # shorten rest
      else h # shorten (a # a' # b # b' # c # c' # rest))"
| "shorten s = s"

text \<open>\<^verbatim>\<open>name(r, g, b, a=1)\<close>.  The module is Python 2 (its scripts use the \<^verbatim>\<open>print\<close>
  statement), where \<^verbatim>\<open>%02x\<close> and \<^verbatim>\<open>%d\<close> accept a float and truncate it.  The product
  \<^verbatim>\<open>255*r\<close> is a float product, rounded.\<close>

definition name :: "double \<Rightarrow> double \<Rightarrow> double \<Rightarrow> double \<Rightarrow> error + string" where
  "name r0 g0 b0 a0 =
     (let r = clamp r0; g = clamp g0; b = clamp b0; a = clamp a0
      in if fleq (Fin 1) a then
           ebind (format_int (fmul (Fin 255) r)) (\<lambda>R.
           ebind (format_int (fmul (Fin 255) g)) (\<lambda>G.
           ebind (format_int (fmul (Fin 255) b)) (\<lambda>B.
             Inr (shorten (''#'' @ hex2 R @ hex2 G @ hex2 B)))))
         else
           ebind (format_int (fmul (Fin 255) r)) (\<lambda>R.
           ebind (format_int (fmul (Fin 255) g)) (\<lambda>G.
           ebind (format_int (fmul (Fin 255) b)) (\<lambda>B.
             Inr (''rgba('' @ dec3 R @ '','' @ dec3 G @ '','' @ dec3 B @ '','' @ fmt_2f a
                    @ '')'')))))"

section \<open>Interpolating along a gradient: \<^verbatim>\<open>gradient\<close>\<close>

text \<open>The stops of a gradient: positions and colour literals.  A position is modelled by
  the real number it denotes, whether the program holds it as a float or as an \<^verbatim>\<open>int\<close>.\<close>

type_synonym ranges = "(real \<times> string) list"

text \<open>The loop \<^verbatim>\<open>for i, (start, color) in enumerate(ranges): if x <= start: break\<close>
  and the value \<open>i\<close> holds after it: the index of the first stop at or above \<open>x\<close>, or
  the last index when the loop runs to its end.  The second argument is the index of
  the head of the list.\<close>

fun scan :: "real \<Rightarrow> ranges \<Rightarrow> int \<Rightarrow> int" where
  "scan x [] i = i - 1"
| "scan x ((start, color) # rest) i = (if x \<le> start then i else scan x rest (i + 1))"

text \<open>The body of \<^verbatim>\<open>gradient\<close> for a scalar, after \<open>x\<close> has been made a float.
  \<^verbatim>\<open>sorted\<close> is stable, as \<open>sort_key\<close> is.  The two tests are comparisons of numbers;
  the fraction \<open>p\<close>, \<open>q = 1. - p\<close> and the three blends are float operations, each one
  rounded.\<close>

definition gradient_scalar :: "real \<Rightarrow> ranges \<Rightarrow> error + string" where
  "gradient_scalar x ranges0 =
     (let ranges = sort_key fst ranges0
      in ebind (getitem ranges 0) (\<lambda>first.
         if x \<le> fst first then Inr (snd first)
         else ebind (getitem ranges (- 1)) (\<lambda>final.
         if x \<ge> fst final then Inr (snd final)
         else
           let i = scan x ranges 0
           in ebind (getitem ranges (i - 1)) (\<lambda>prev.
              ebind (getitem ranges i) (\<lambda>cur.
              ebind (fdiv (fsub (Fin x) (Fin (fst prev))) (fsub (Fin (fst cur)) (Fin (fst prev))))
                (\<lambda>p.
                let q = fsub (Fin 1) p
                in ebind (rgba (snd prev)) (\<lambda>(a0, a1, a2, a3).
                   ebind (rgba (snd cur)) (\<lambda>(b0, b1, b2, b3).
                     name (fadd (fmul a0 q) (fmul b0 p))
                          (fadd (fmul a1 q) (fmul b1 p))
                          (fadd (fmul a2 q) (fmul b2 p)) (Fin 1)))))))))"

text \<open>The argument \<open>x\<close> of \<^verbatim>\<open>gradient\<close>: a number, NaN, or a sequence of such values;
  the result is a colour or a list of results.  For NaN the program goes on with the
  \<^verbatim>\<open>int\<close> 0, which is modelled by the float 0: they compare alike, and they behave alike
  in the arithmetic as soon as one of the two positions involved is a float (the quotient
  of two \<^verbatim>\<open>int\<close> differences would be an integer division).\<close>

datatype xval = Num real | NaN | Arr "xval list"

datatype gval = Color string | Colors "gval list"

fun gradient :: "xval \<Rightarrow> ranges \<Rightarrow> error + gval"
  and gradient_each :: "xval list \<Rightarrow> ranges \<Rightarrow> error + gval list" where
  "gradient (Arr xs) ranges = map_sum id Colors (gradient_each xs ranges)"
| "gradient (Num x) ranges = map_sum id Color (gradient_scalar x ranges)"
| "gradient NaN ranges = map_sum id Color (gradient_scalar 0 ranges)"
| "gradient_each [] ranges = Inr []"
| "gradient_each (v # vs) ranges =
     (case gradient v ranges of
        Inl e \<Rightarrow> Inl e
      | Inr c \<Rightarrow> map_sum id (\<lambda>cs. c # cs) (gradient_each vs ranges))"

definition Greens :: ranges where
  "Greens = [(0, ''#F7FCF5''), (0.5, ''#74C476''), (1, ''#00441B'')]"

definition RWG_1 :: ranges where
  "RWG_1 = [(- 1, ''#ff0000''), (0, ''#ffffff''), (1, ''#00ff00'')]"

section \<open>The interpolation as the specification words it\<close>

text \<open>The position, among the sorted stops, of the first stop whose position is at or
  above \<open>x\<close>.\<close>

definition first_at_or_above :: "real \<Rightarrow> ranges \<Rightarrow> nat" where
  "first_at_or_above x stops = length (takeWhile (\<lambda>s. \<not> x \<le> fst s) stops)"

text \<open>The specification of \<^verbatim>\<open>Interpolate\<close> between the end stops: sort the stops by
  position, find the first stop at or above \<open>x\<close>, take the fraction
  \<open>p = (x - prev.position) / (cur.position - prev.position)\<close>, blend each of R, G and B as
  \<open>prev * (1 - p) + cur * p\<close>, and format the result with the default opaque alpha.  The
  arithmetic is that of floats.\<close>

definition Interpolate_spec :: "real \<Rightarrow> ranges \<Rightarrow> error + string" where
  "Interpolate_spec x g =
     (let stops = sort_key fst g;
          i = first_at_or_above x stops;
          cur = stops ! i;
          prev = stops ! (i - 1)
      in ebind (fdiv (fsub (Fin x) (Fin (fst prev))) (fsub (Fin (fst cur)) (Fin (fst prev))))
           (\<lambda>p.
         ebind (rgba (snd prev)) (\<lambda>(r0, g0, b0, a0).
         ebind (rgba (snd cur)) (\<lambda>(r1, g1, b1, a1).
           name (fadd (fmul r0 (fsub (Fin 1) p)) (fmul r1 p))
                (fadd (fmul g0 (fsub (Fin 1) p)) (fmul g1 p))
                (fadd (fmul b0 (fsub (Fin 1) p)) (fmul b1 p)) (Fin 1)))))"

section \<open>Parsing \<^verbatim>\<open>hsl\<close> literals as the specification words it\<close>

text \<open>A saturation, value or alpha token: a percent token is divided by 100, any other
  token is the float it spells.\<close>

definition percent_or_float :: "string \<Rightarrow> error + double" where
  "percent_or_float t =
     (if endswith t ''%'' then ebind (pyfloat (butlast t)) (\<lambda>x. fdiv x (Fin 100))
      else pyfloat t)"

text \<open>A hue in degrees, normalised by \<open>(value / 360) mod 1\<close>.\<close>

definition hue_degrees :: "double \<Rightarrow> error + double" where
  "hue_degrees x = map_sum id fmod1 (fdiv x (Fin 360))"

text \<open>The hue token: a percent token is divided by 100 like any other and not
  normalised; a token without the percent sign is a hue in degrees.\<close>

definition hue_token :: "string \<Rightarrow> error + double" where
  "hue_token t =
     (if endswith t ''%'' then ebind (pyfloat (butlast t)) (\<lambda>x. fdiv x (Fin 100))
      else ebind (pyfloat t) hue_degrees)"

text \<open>The colour of three or four tokens: hue, saturation and value are converted from
  HSV to RGB, the alpha is the fourth token or 1, and the four components are clamped.\<close>

definition Parse_hsl_spec :: "string list \<Rightarrow> error + color" where
  "Parse_hsl_spec ts =
     ebind (hue_token (ts ! 0)) (\<lambda>h.
     ebind (percent_or_float (ts ! 1)) (\<lambda>s.
     ebind (percent_or_float (ts ! 2)) (\<lambda>v.
     ebind (if length ts = 4 then percent_or_float (ts ! 3) else Inr (Fin 1)) (\<lambda>a.
     ebind (hsv_to_rgb h s v) (\<lambda>(r, g, b).
       Inr (clamp r, clamp g, clamp b, clamp a))))))"

section \<open>Basic facts\<close>

lemma ebind_simps [simp]: "ebind (Inl e) f = Inl e" "ebind (Inr x) f = f x"
  by (simp_all add: ebind_def)

section \<open>The distinct palette\<close>

lemma length_distincts: "length distincts = 20"
  by (simp add: distincts_def)

lemma even_entries: "map (\<lambda>i. f (nat (2 * i))) [0 .. n - 1] = map (\<lambda>k. f (2 * k)) [0 ..< nat n]"
  by (rule nth_equalityI) (auto simp: nat_mult_distrib nat_add_distrib)

text \<open>
  Claim C7.  For every non-negative integer \<open>n\<close>, \<^verbatim>\<open>distinct(n)\<close> returns \<open>min n 20\<close>
  colours: for \<open>n \<le> 10\<close> the entries of the table at the even positions
  \<open>0, 2, \<dots>, 2(n-1)\<close>, for \<open>10 < n \<le> 20\<close> the first \<open>n\<close> entries of the table, and for
  \<open>n > 20\<close> the whole table of twenty.
\<close>

theorem distinct_palette:
  "0 \<le> n \<Longrightarrow>
     length (distinct' n) = nat (min n 20)
   \<and> (n \<le> 10 \<longrightarrow> distinct' n = map (\<lambda>k. distincts ! (2 * k)) [0 ..< nat n])
   \<and> (10 < n \<and> n \<le> 20 \<longrightarrow> distinct' n = take (nat n) distincts)
   \<and> (20 < n \<longrightarrow> distinct' n = distincts)"
  by (auto simp: distinct'_def length_distincts even_entries min_def)

theorem distinct_palette_witness:
  "(0::int) \<le> 3 \<and> length (distinct' 3) = 3 \<and> distinct' 3 = [''#1f77b4'', ''#ff7f0e'', ''#2ca02c'']
   \<and> length (distinct' 12) = 12 \<and> distinct' 12 = take 12 distincts
   \<and> length (distinct' 25) = 20 \<and> distinct' 25 = distincts"
  using distinct_palette [of 3] distinct_palette [of 12] distinct_palette [of 25]
  by (simp add: distincts_def upt_rec)

section \<open>Theme palette lookup\<close>

lemma getitem_in_range:
  "- int (length xs) \<le> i \<Longrightarrow> i < int (length xs) \<Longrightarrow>
   getitem xs i = Inr (xs ! nat (if i < 0 then i + int (length xs) else i))"
  by (simp add: getitem_def Let_def)

lemma getitem_out_of_range:
  "i < - int (length xs) \<or> int (length xs) \<le> i \<Longrightarrow> getitem xs i = Inl IndexError"
  by (auto simp: getitem_def Let_def)

lemma adjust_index_bounds:
  "0 \<le> n \<Longrightarrow> (if st < 0 then - 1 else 0) \<le> adjust_index n st i
     \<and> adjust_index n st i \<le> (if st < 0 then n - 1 else n)"
  by (auto simp: adjust_index_def)

lemma step_pos_bound:
  fixes lo hi st :: int and k :: nat
  assumes "0 < st" "lo < hi" "int k \<le> (hi - lo - 1) div st"
  shows "lo + int k * st < hi"
proof -
  have "int k * st \<le> ((hi - lo - 1) div st) * st"
    using assms by (simp add: mult_right_mono)
  also have "\<dots> = (hi - lo - 1) - (hi - lo - 1) mod st"
    by (simp add: minus_mod_eq_div_mult)
  also have "\<dots> \<le> hi - lo - 1"
    using pos_mod_sign [OF assms(1), of "hi - lo - 1"] by simp
  finally show ?thesis by simp
qed

lemma step_neg_bound:
  fixes lo hi st :: int and k :: nat
  assumes "st < 0" "hi < lo" "int k \<le> (lo - hi - 1) div (- st)"
  shows "hi < lo + int k * st"
  using step_pos_bound [of "- st" "- lo" "- hi" k] assms by simp

lemma slice_start_bounds:
  "0 \<le> n \<Longrightarrow> (if st < 0 then - 1 else 0) \<le> slice_start n st a
     \<and> slice_start n st a \<le> (if st < 0 then n - 1 else n)"
  using adjust_index_bounds [of n st] by (auto simp: slice_start_def split: option.splits)

lemma slice_stop_bounds:
  "0 \<le> n \<Longrightarrow> (if st < 0 then - 1 else 0) \<le> slice_stop n st b
     \<and> slice_stop n st b \<le> (if st < 0 then n - 1 else n)"
  using adjust_index_bounds [of n st] by (auto simp: slice_stop_def split: option.splits)

lemma slice_indices_in_range:
  assumes "0 \<le> n" "slice_indices n a b c = Inr js" "j \<in> set js"
  shows "0 \<le> j \<and> j < n"
proof -
  define st where "st = slice_step c"
  define lo where "lo = slice_start n st a"
  define hi where "hi = slice_stop n st b"
  have st: "st \<noteq> 0" and js: "js = map (\<lambda>k. lo + int k * st) [0 ..< nat (slice_length lo hi st)]"
    using assms(2) unfolding slice_indices_def Let_def st_def lo_def hi_def
    by (auto split: if_splits)
  from assms(3) js obtain k where k: "k < nat (slice_length lo hi st)" "j = lo + int k * st" by auto
  note b = slice_start_bounds [OF assms(1), of st a, folded lo_def]
    slice_stop_bounds [OF assms(1), of st b, folded hi_def]
  show ?thesis
  proof (cases "st < 0")
    case True
    with k have *: "hi < lo" "int k \<le> (lo - hi - 1) div (- st)"
      by (auto simp: slice_length_def split: if_splits)
    have "hi < j" using step_neg_bound [OF True *] k by simp
    moreover have "int k * st \<le> 0" using True by (simp add: mult_nonneg_nonpos)
    ultimately show ?thesis using b True k by auto
  next
    case False
    with st have pos: "0 < st" by simp
    with k have *: "lo < hi" "int k \<le> (hi - lo - 1) div st"
      by (auto simp: slice_length_def split: if_splits)
    have "j < hi" using step_pos_bound [OF pos *] k by simp
    moreover have "0 \<le> int k * st" using pos by simp
    ultimately show ?thesis using b pos k by auto
  qed
qed

lemma map_nth_run:
  "lo \<le> hi \<Longrightarrow> hi \<le> length xs \<Longrightarrow>
   map (\<lambda>k. xs ! (lo + k)) [0 ..< hi - lo] = drop lo (take hi xs)"
  by (rule nth_equalityI) (auto simp: min_def)

lemma getslice_unit_step:
  assumes "c = None \<or> c = Some 1"
  shows "getslice xs a b c
         = Inr (drop (nat (slice_start (int (length xs)) 1 a))
                  (take (nat (slice_stop (int (length xs)) 1 b)) xs))"
proof -
  define n where "n = int (length xs)"
  define lo where "lo = slice_start n 1 a"
  define hi where "hi = slice_stop n 1 b"
  have st: "slice_step c = 1" using assms by (auto simp: slice_step_def)
  have n0: "0 \<le> n" by (simp add: n_def)
  have lo: "0 \<le> lo" "lo \<le> n" using slice_start_bounds [OF n0, of 1 a] by (simp_all add: lo_def)
  have hi: "0 \<le> hi" "hi \<le> n" using slice_stop_bounds [OF n0, of 1 b] by (simp_all add: hi_def)
  have g: "getslice xs a b c
           = Inr (map (\<lambda>j. xs ! nat j) (map (\<lambda>k. lo + int k * 1) [0 ..< nat (slice_length lo hi 1)]))"
    by (simp add: getslice_def slice_indices_def st n_def [symmetric] lo_def [symmetric]
        hi_def [symmetric])
  show ?thesis
  proof (cases "lo < hi")
    case True
    have "map (\<lambda>j. xs ! nat j) (map (\<lambda>k. lo + int k * 1) [0 ..< nat (slice_length lo hi 1)])
          = map (\<lambda>k. xs ! (nat lo + k)) [0 ..< nat hi - nat lo]"
      using True lo by (simp add: slice_length_def comp_def nat_add_distrib nat_diff_distrib)
    also have "\<dots> = drop (nat lo) (take (nat hi) xs)"
      using True lo hi by (intro map_nth_run) (simp_all add: n_def nat_le_iff)
    finally show ?thesis
      using g by (simp add: lo_def hi_def n_def)
  next
    case False
    then have "drop (nat lo) (take (nat hi) xs) = []" by simp
    with False g show ?thesis
      by (simp add: slice_length_def lo_def hi_def n_def)
  qed
qed

lemma getslice_zero_step: "getslice xs a b (Some 0) = Inl SliceStepError"
  by (simp add: getslice_def slice_indices_def slice_step_def)

lemma getslice_positions:
  assumes "c \<noteq> Some 0"
  shows "\<exists>js. slice_indices (int (length xs)) a b c = Inr js
              \<and> (\<forall>j \<in> set js. 0 \<le> j \<and> j < int (length xs))
              \<and> getslice xs a b c = Inr (map (\<lambda>j. xs ! nat j) js)"
proof -
  have "slice_step c \<noteq> 0"
    using assms by (auto simp: slice_step_def split: option.splits)
  then obtain js where js: "slice_indices (int (length xs)) a b c = Inr js"
    by (simp add: slice_indices_def Let_def)
  have "0 \<le> j \<and> j < int (length xs)" if "j \<in> set js" for j
    using slice_indices_in_range [OF _ js that] by simp
  then show ?thesis by (auto simp: getslice_def js)
qed

lemma lookup_slots:
  "map lookup [''accent_1'', ''accent_2'', ''accent_3'', ''accent_4'', ''accent_5'',
               ''accent_6'', ''light_2'', ''dark_2'', ''light_1'', ''dark_1'']
   = map Some [0, 1, 2, 3, 4, 5, 6, 7, 8, 9]"
  by (simp add: lookup_def)

lemma lookup_range: "lookup s = Some i \<Longrightarrow> 0 \<le> i \<and> i < 10"
  by (auto simp: lookup_def split: if_splits)

text \<open>
  Claim C8, as amended.  For a theme palette (ten or twelve stored colours; here any
  palette of at least ten): a string that is no slot name yields \<^verbatim>\<open>None\<close>; the slot names
  \<^verbatim>\<open>accent_1\<close> to \<^verbatim>\<open>accent_6\<close>, \<^verbatim>\<open>light_2\<close>, \<^verbatim>\<open>dark_2\<close>, \<^verbatim>\<open>light_1\<close>, \<^verbatim>\<open>dark_1\<close> yield the
  colours stored at positions 0 to 9; an integer index between \<open>-len\<close> and \<open>len - 1\<close> yields
  the stored colour (a negative one counting from the end); an integer index outside
  that range raises \<^verbatim>\<open>IndexError\<close> instead of yielding \<^verbatim>\<open>None\<close>; a slice whose step is
  not zero yields exactly the stored colours at the positions the slice selects, all of
  them in range, in the order of the slice; for the step 1 (or none) these are the stored
  colours from the start bound up to the stop bound; a slice whose step is zero raises
  \<^verbatim>\<open>ValueError\<close>.
\<close>

theorem MSO_getitem_lookup:
  fixes self :: MSO and i j :: int
  assumes "10 \<le> length (mso_values self)"
  shows "(lookup s = None \<longrightarrow> MSO_getitem self (KStr s) = Inr PyNone)
       \<and> map (\<lambda>s. MSO_getitem self (KStr s))
           [''accent_1'', ''accent_2'', ''accent_3'', ''accent_4'', ''accent_5'',
            ''accent_6'', ''light_2'', ''dark_2'', ''light_1'', ''dark_1'']
         = map (\<lambda>k. Inr (Item (mso_values self ! k))) [0, 1, 2, 3, 4, 5, 6, 7, 8, 9]
       \<and> (- int (length (mso_values self)) \<le> i \<and> i < int (length (mso_values self)) \<longrightarrow>
            MSO_getitem self (KInt i)
            = Inr (Item (mso_values self ! nat (if i < 0 then i + int (length (mso_values self)) else i))))
       \<and> (j < - int (length (mso_values self)) \<or> int (length (mso_values self)) \<le> j \<longrightarrow>
            MSO_getitem self (KInt j) = Inl IndexError)
       \<and> (c \<noteq> Some 0 \<longrightarrow>
            (\<exists>js. slice_indices (int (length (mso_values self))) a b c = Inr js
                \<and> (\<forall>j \<in> set js. 0 \<le> j \<and> j < int (length (mso_values self)))
                \<and> MSO_getitem self (KSlice a b c)
                  = Inr (Items (map (\<lambda>j. mso_values self ! nat j) js))))
       \<and> (c = None \<or> c = Some 1 \<longrightarrow>
            MSO_getitem self (KSlice a b c)
            = Inr (Items (drop (nat (slice_start (int (length (mso_values self))) 1 a))
                           (take (nat (slice_stop (int (length (mso_values self))) 1 b))
                              (mso_values self)))))
       \<and> MSO_getitem self (KSlice a b (Some 0)) = Inl SliceStepError"
proof -
  have slots: "MSO_getitem self (KStr t) = Inr (Item (mso_values self ! nat k))"
    if "lookup t = Some k" for t k
    using that lookup_range [OF that] assms
    by (simp add: MSO_getitem_def getitem_in_range)
  have 1: "lookup s = None \<longrightarrow> MSO_getitem self (KStr s) = Inr PyNone"
    by (simp add: MSO_getitem_def)
  have 2: "map (\<lambda>s. MSO_getitem self (KStr s))
           [''accent_1'', ''accent_2'', ''accent_3'', ''accent_4'', ''accent_5'',
            ''accent_6'', ''light_2'', ''dark_2'', ''light_1'', ''dark_1'']
         = map (\<lambda>k. Inr (Item (mso_values self ! k))) [0, 1, 2, 3, 4, 5, 6, 7, 8, 9]"
    using lookup_slots by (simp add: slots)
  have 3: "- int (length (mso_values self)) \<le> i \<and> i < int (length (mso_values self)) \<longrightarrow>
            MSO_getitem self (KInt i)
            = Inr (Item (mso_values self ! nat (if i < 0 then i + int (length (mso_values self)) else i)))"
    by (simp add: MSO_getitem_def getitem_in_range)
  have 4: "j < - int (length (mso_values self)) \<or> int (length (mso_values self)) \<le> j \<longrightarrow>
            MSO_getitem self (KInt j) = Inl IndexError"
    by (auto simp: MSO_getitem_def getitem_out_of_range)
  have 5: "c \<noteq> Some 0 \<longrightarrow>
            (\<exists>js. slice_indices (int (length (mso_values self))) a b c = Inr js
                \<and> (\<forall>j \<in> set js. 0 \<le> j \<and> j < int (length (mso_values self)))
                \<and> MSO_getitem self (KSlice a b c)
                  = Inr (Items (map (\<lambda>j. mso_values self ! nat j) js)))"
  proof
    assume "c \<noteq> Some 0"
    from getslice_positions [OF this, of "mso_values self" a b]
    show "\<exists>js. slice_indices (int (length (mso_values self))) a b c = Inr js
                \<and> (\<forall>j \<in> set js. 0 \<le> j \<and> j < int (length (mso_values self)))
                \<and> MSO_getitem self (KSlice a b c)
                  = Inr (Items (map (\<lambda>j. mso_values self ! nat j) js))"
      by (auto simp: MSO_getitem_def)
  qed
  have 6: "c = None \<or> c = Some 1 \<longrightarrow>
            MSO_getitem self (KSlice a b c)
            = Inr (Items (drop (nat (slice_start (int (length (mso_values self))) 1 a))
                           (take (nat (slice_stop (int (length (mso_values self))) 1 b))
                              (mso_values self))))"
    using getslice_unit_step [of c "mso_values self" a b] by (auto simp: MSO_getitem_def)
  have 7: "MSO_getitem self (KSlice a b (Some 0)) = Inl SliceStepError"
    by (simp add: MSO_getitem_def getslice_zero_step)
  from 1 2 3 4 5 6 7 show ?thesis by blast
qed

text \<open>Claim C8 as stated fails: index 10 of the ten-colour palette \<^verbatim>\<open>Office\<close> is out of
  range, and the lookup raises \<^verbatim>\<open>IndexError\<close>; it does not return \<^verbatim>\<open>None\<close>.\<close>

theorem MSO_getitem_out_of_range_counterexample:
  "MSO_getitem Office (KInt 10) = Inl IndexError \<and> MSO_getitem Office (KInt 10) \<noteq> Inr PyNone"
  by (simp add: MSO_getitem_def Office_def getitem_def)

theorem MSO_getitem_lookup_witness:
  "10 \<le> length (mso_values Office)
   \<and> lookup ''accent_7'' = None \<and> MSO_getitem Office (KStr ''accent_7'') = Inr PyNone
   \<and> MSO_getitem Office (KStr ''dark_1'') = Inr (Item ''#000000'')
   \<and> MSO_getitem Office (KInt (- 1)) = Inr (Item ''#000000'')
   \<and> MSO_getitem Office (KInt (- 11)) = Inl IndexError
   \<and> MSO_getitem Office (KSlice None (Some 1) None) = Inr (Items [''#4f81bd''])
   \<and> MSO_getitem Office (KSlice None (Some 1) (Some 0)) = Inl SliceStepError"
proof -
  have h: "10 \<le> length (mso_values Office)" by (simp add: Office_def)
  have n: "lookup ''accent_7'' = None" by (simp add: lookup_def)
  show ?thesis
    using MSO_getitem_lookup [OF h, of "''accent_7''" "- 1" "- 11" None None "Some 1"] h n
    by (simp add: Office_def slice_start_def slice_stop_def adjust_index_def)
qed

section \<open>Clamping at the ends of a gradient\<close>

lemma getitem_first: "rs \<noteq> [] \<Longrightarrow> getitem rs 0 = Inr (hd rs)"
  by (simp add: getitem_def hd_conv_nth)

lemma getitem_last: "rs \<noteq> [] \<Longrightarrow> getitem rs (- 1) = Inr (last rs)"
  by (cases rs rule: rev_cases) (simp_all add: getitem_def nth_append)

lemma sort_key_Nil_iff: "sort_key f xs = [] \<longleftrightarrow> xs = []"
  by (metis length_0_conv length_sort)

text \<open>
  Claim C9.  For a gradient of exactly one stop and every scalar \<open>x\<close>, NaN included (it is
  treated as 0), \<^verbatim>\<open>gradient\<close> returns the colour literal of that stop unchanged, whatever
  the literal is: \<open>x\<close> is at or below the position of the stop or at or above it, so the
  interpolation is never reached.
\<close>

theorem gradient_single_stop:
  "gradient (Num x) [(p, c)] = Inr (Color c) \<and> gradient NaN [(p, c)] = Inr (Color c)
   \<and> (x \<le> p \<or> x \<ge> p)"
  by (auto simp: gradient_scalar_def Let_def getitem_first getitem_last)

text \<open>
  Claim C2, as amended.  For a non-empty gradient, with the stops sorted by position: when
  \<open>x\<close> is at or below the first position, \<^verbatim>\<open>gradient\<close> returns the colour literal of the
  first stop unchanged; when \<open>x\<close> is above the first position and at or above the last, it
  returns the colour literal of the last stop unchanged; NaN is treated as 0.
\<close>

theorem gradient_clamps:
  assumes "g \<noteq> []"
  shows "(x \<le> fst (hd (sort_key fst g)) \<longrightarrow>
            gradient (Num x) g = Inr (Color (snd (hd (sort_key fst g)))))
       \<and> (fst (hd (sort_key fst g)) < x \<and> fst (last (sort_key fst g)) \<le> x \<longrightarrow>
            gradient (Num x) g = Inr (Color (snd (last (sort_key fst g)))))
       \<and> gradient NaN g = gradient (Num 0) g"
  using assms
  by (simp add: gradient_scalar_def Let_def getitem_first getitem_last sort_key_Nil_iff)

text \<open>
  Claim C2 as stated fails when both tests hold: with two stops at position 0 and
  \<open>x = 0\<close>, \<open>x\<close> is at or above the last position, yet the first test is made first and the
  colour of the first stop is returned, not that of the last.
\<close>

theorem gradient_clamps_counterexample:
  "sort_key fst [(0::real, ''#000000''), (0, ''#ffffff'')] = [(0, ''#000000''), (0, ''#ffffff'')]
   \<and> (0::real) \<ge> fst (last [(0::real, ''#000000''), (0, ''#ffffff'')])
   \<and> gradient (Num 0) [(0, ''#000000''), (0, ''#ffffff'')] = Inr (Color ''#000000'')
   \<and> gradient (Num 0) [(0, ''#000000''), (0, ''#ffffff'')] \<noteq> Inr (Color ''#ffffff'')"
  by (simp add: gradient_scalar_def Let_def getitem_first getitem_last)

theorem gradient_clamps_witness:
  "RWG_1 \<noteq> []
   \<and> sort_key fst RWG_1 = RWG_1
   \<and> gradient (Num (- 2)) RWG_1 = Inr (Color ''#ff0000'')
   \<and> gradient (Num 2) RWG_1 = Inr (Color ''#00ff00'')
   \<and> gradient NaN RWG_1 = gradient (Num 0) RWG_1"
proof -
  have h: "RWG_1 \<noteq> []" by (simp add: RWG_1_def)
  have s: "sort_key fst RWG_1 = RWG_1" by (simp add: RWG_1_def)
  show ?thesis
    using gradient_clamps [OF h, of "- 2"] gradient_clamps [OF h, of 2] h
    unfolding s by (simp add: RWG_1_def)
qed


section \<open>Interpolation between two stops\<close>

lemma scan_first:
  "\<exists>s \<in> set rs. x \<le> fst s \<Longrightarrow> scan x rs k = k + int (first_at_or_above x rs)"
proof (induction rs arbitrary: k)
  case Nil
  then show ?case by simp
next
  case (Cons s rs)
  show ?case
  proof (cases "x \<le> fst s")
    case True
    then show ?thesis by (cases s) (simp add: first_at_or_above_def)
  next
    case False
    with Cons.prems have "\<exists>s \<in> set rs. x \<le> fst s" by auto
    from Cons.IH [OF this, of "k + 1"] False show ?thesis
      by (cases s) (simp add: first_at_or_above_def)
  qed
qed

lemma first_at_or_above_less:
  "\<exists>s \<in> set rs. x \<le> fst s \<Longrightarrow> first_at_or_above x rs < length rs"
  by (induction rs) (auto simp: first_at_or_above_def)

lemma first_at_or_above_cur:
  "\<exists>s \<in> set rs. x \<le> fst s \<Longrightarrow> x \<le> fst (rs ! first_at_or_above x rs)"
  by (induction rs) (auto simp: first_at_or_above_def)

lemma first_at_or_above_before:
  "j < first_at_or_above x rs \<Longrightarrow> fst (rs ! j) < x"
proof (induction rs arbitrary: j)
  case Nil
  then show ?case by (simp add: first_at_or_above_def)
next
  case (Cons s rs)
  then show ?case
    by (cases j) (auto simp: first_at_or_above_def split: if_splits)
qed

lemma first_at_or_above_pos:
  "rs \<noteq> [] \<Longrightarrow> fst (hd rs) < x \<Longrightarrow> 0 < first_at_or_above x rs"
  by (cases rs) (auto simp: first_at_or_above_def)

lemma getitem_nat: "k < length rs \<Longrightarrow> getitem rs (int k) = Inr (rs ! k)"
  by (simp add: getitem_def)

text \<open>
  Claim C1.  For a gradient and a scalar \<open>x\<close> strictly between the first and the last of the
  sorted stop positions, \<^verbatim>\<open>gradient\<close> does what the specification says: it finds the first
  stop, in ascending sorted order, whose position is at or above \<open>x\<close> (it is not the
  first stop, and every stop before it lies below \<open>x\<close>), takes
  \<open>p = (x - prev.position) / (cur.position - prev.position)\<close>, blends R, G and B as
  \<open>prev * (1 - p) + cur * p\<close>, leaves alpha out, and returns the string that \<^verbatim>\<open>name\<close>
  formats with its default alpha 1.  Every operation is the float operation, rounded as
  the program rounds it.  (When the division, the parsing of one of the two colour
  literals or the formatting raises, both sides raise the same exception.)
\<close>

theorem gradient_interpolates:
  assumes "g \<noteq> []"
    and "fst (hd (sort_key fst g)) < x"
    and "x < fst (last (sort_key fst g))"
  shows "gradient (Num x) g = map_sum id Color (Interpolate_spec x g)
       \<and> sorted (map fst (sort_key fst g))
       \<and> 0 < first_at_or_above x (sort_key fst g)
       \<and> first_at_or_above x (sort_key fst g) < length (sort_key fst g)
       \<and> x \<le> fst (sort_key fst g ! first_at_or_above x (sort_key fst g))
       \<and> (\<forall>j < first_at_or_above x (sort_key fst g). fst (sort_key fst g ! j) < x)
       \<and> (\<forall>r0 g0 b0 a0 r1 g1 b1 a1 p.
            fdiv (fsub (Fin x) (Fin (fst (sort_key fst g ! (first_at_or_above x (sort_key fst g) - 1)))))
                 (fsub (Fin (fst (sort_key fst g ! first_at_or_above x (sort_key fst g))))
                       (Fin (fst (sort_key fst g ! (first_at_or_above x (sort_key fst g) - 1))))) = Inr p
            \<longrightarrow> rgba (snd (sort_key fst g ! (first_at_or_above x (sort_key fst g) - 1))) = Inr (r0, g0, b0, a0)
            \<longrightarrow> rgba (snd (sort_key fst g ! first_at_or_above x (sort_key fst g))) = Inr (r1, g1, b1, a1)
            \<longrightarrow> gradient (Num x) g
                = map_sum id Color
                    (name (fadd (fmul r0 (fsub (Fin 1) p)) (fmul r1 p))
                          (fadd (fmul g0 (fsub (Fin 1) p)) (fmul g1 p))
                          (fadd (fmul b0 (fsub (Fin 1) p)) (fmul b1 p)) (Fin 1)))"
proof -
  define rs where "rs = sort_key fst g"
  define i where "i = first_at_or_above x rs"
  have ne: "rs \<noteq> []" using assms(1) by (simp add: rs_def sort_key_Nil_iff)
  have "last rs \<in> set rs" using ne by simp
  with assms(3) have ex: "\<exists>s \<in> set rs. x \<le> fst s" unfolding rs_def by force
  have i0: "0 < i" using first_at_or_above_pos [OF ne] assms(2) by (simp add: i_def rs_def)
  have il: "i < length rs" using first_at_or_above_less [OF ex] by (simp add: i_def)
  have cur: "x \<le> fst (rs ! i)" using first_at_or_above_cur [OF ex] by (simp add: i_def)
  have before: "fst (rs ! j) < x" if "j < i" for j
    using that first_at_or_above_before [of j x rs] by (simp add: i_def)
  have sc: "scan x rs 0 = int i" using scan_first [OF ex, of 0] by (simp add: i_def)
  have gp: "getitem rs (int i - 1) = Inr (rs ! (i - 1))"
    using getitem_nat [of "i - 1" rs] i0 il by (simp add: int_ops)
  have gc: "getitem rs (int i) = Inr (rs ! i)" using getitem_nat [OF il] .
  have eq: "gradient_scalar x g = Interpolate_spec x g"
    using assms(2,3)
    by (simp add: gradient_scalar_def Interpolate_spec_def Let_def rs_def [symmetric]
        getitem_first [OF ne] getitem_last [OF ne] sc gp gc i_def [symmetric])
  have 1: "gradient (Num x) g = map_sum id Color (Interpolate_spec x g)"
    by (simp add: eq)
  have 2: "sorted (map fst rs)" by (simp add: rs_def)
  have 7: "gradient (Num x) g
            = map_sum id Color
                (name (fadd (fmul r0 (fsub (Fin 1) p)) (fmul r1 p))
                      (fadd (fmul g0 (fsub (Fin 1) p)) (fmul g1 p))
                      (fadd (fmul b0 (fsub (Fin 1) p)) (fmul b1 p)) (Fin 1))"
    if "fdiv (fsub (Fin x) (Fin (fst (rs ! (i - 1))))) (fsub (Fin (fst (rs ! i))) (Fin (fst (rs ! (i - 1))))) = Inr p"
       "rgba (snd (rs ! (i - 1))) = Inr (r0, g0, b0, a0)" "rgba (snd (rs ! i)) = Inr (r1, g1, b1, a1)"
    for r0 g0 b0 a0 r1 g1 b1 a1 p
    using that by (simp add: eq Interpolate_spec_def Let_def rs_def [symmetric] i_def [symmetric])
  show ?thesis
    unfolding rs_def [symmetric] i_def [symmetric]
    using 1 2 i0 il cur before 7 by blast
qed

lemmas float_eval = rnd_def fl_def ulp_exp_def ilog2_def bits.simps round_even_def Let_def fsub_def

lemma hexval_digits:
  "hexval CHR ''0'' = Some 0" "hexval CHR ''1'' = Some 1" "hexval CHR ''4'' = Some 4"
  "hexval CHR ''5'' = Some 5" "hexval CHR ''6'' = Some 6" "hexval CHR ''7'' = Some 7"
  "hexval CHR ''B'' = Some 11" "hexval CHR ''C'' = Some 12" "hexval CHR ''F'' = Some 15"
  by (simp_all add: hexval_def)

lemma clamp_unit: "0 \<le> x \<Longrightarrow> x \<le> 1 \<Longrightarrow> clamp (Fin x) = Fin x"
  by (simp add: clamp_def)

lemma rgba_F7FCF5:
  "rgba ''#F7FCF5'' = Inr (Fin (8724620454592255 / 9007199254740992), Fin (278163506396413 / 281474976710656), Fin (8653975754555071 / 9007199254740992), Fin 1)"
  by (simp add: rgba_def rgba_components_def startswith_def substr_def int16_def strip_def
      is_space_def hexval_digits clamp_def float_eval)

lemma rgba_74C476:
  "rgba ''#74C476'' = Inr (Fin (8194785204313373 / 18014398509481984), Fin (6923180603644057 / 9007199254740992), Fin (4168037302193871 / 9007199254740992), Fin 1)"
  by (simp add: rgba_def rgba_components_def startswith_def substr_def int16_def strip_def
      is_space_def hexval_digits clamp_def float_eval)

lemma rgba_00441B:
  "rgba ''#00441B'' = Inr (Fin 0, Fin (4803839602528529 / 18014398509481984), Fin (7629627604015899 / 72057594037927936), Fin 1)"
  by (simp add: rgba_def rgba_components_def startswith_def substr_def int16_def strip_def
      is_space_def hexval_digits clamp_def float_eval)

lemma fraction_quarter:
  "fdiv (fsub (Fin (1 / 4)) (Fin (0))) (fsub (Fin (1 / 2)) (Fin (0))) = Inr (Fin (1 / 2))"
  by (simp add: float_eval)

lemma name_quarter:
  "name (fadd (fmul (Fin (8724620454592255 / 9007199254740992)) (fsub (Fin 1) (Fin (1 / 2)))) (fmul (Fin (8194785204313373 / 18014398509481984)) (Fin (1 / 2))))
        (fadd (fmul (Fin (278163506396413 / 281474976710656)) (fsub (Fin 1) (Fin (1 / 2)))) (fmul (Fin (6923180603644057 / 9007199254740992)) (Fin (1 / 2))))
        (fadd (fmul (Fin (8653975754555071 / 9007199254740992)) (fsub (Fin 1) (Fin (1 / 2)))) (fmul (Fin (4168037302193871 / 9007199254740992)) (Fin (1 / 2))))
        (Fin 1) = Inr ''#b5e0b5''"
  by (simp add: name_def clamp_def fleq_def trunc_def hex2_def hexchar_def is_word_def
      char_of_eq_iff float_eval)

lemma fraction_113_128:
  "fdiv (fsub (Fin (113 / 128)) (Fin (1 / 2))) (fsub (Fin (1)) (Fin (1 / 2))) = Inr (Fin (49 / 64))"
  by (simp add: float_eval)

lemma name_113_128:
  "name (fadd (fmul (Fin (8194785204313373 / 18014398509481984)) (fsub (Fin 1) (Fin (49 / 64)))) (fmul (Fin 0) (Fin (49 / 64))))
        (fadd (fmul (Fin (6923180603644057 / 9007199254740992)) (fsub (Fin 1) (Fin (49 / 64)))) (fmul (Fin (4803839602528529 / 18014398509481984)) (Fin (49 / 64))))
        (fadd (fmul (Fin (4168037302193871 / 9007199254740992)) (fsub (Fin 1) (Fin (49 / 64)))) (fmul (Fin (7629627604015899 / 72057594037927936)) (Fin (49 / 64))))
        (Fin 1) = Inr ''#1b6130''"
  by (simp add: name_def clamp_def fleq_def trunc_def hex2_def hexchar_def is_word_def
      char_of_eq_iff float_eval)

text \<open>
  The theorem at \<^verbatim>\<open>gradient(0.25, Greens)\<close>, the half-way blend of the first two stops, and
  at \<^verbatim>\<open>gradient(113/128, Greens)\<close>, where the green channel is \<open>255 * G = 97.99999999999999\<close>
  in floats (it would be 98 in exact arithmetic) and is formatted as \<^verbatim>\<open>61\<close>.
\<close>

theorem gradient_interpolates_witness:
  "Greens \<noteq> []
   \<and> fst (hd (sort_key fst Greens)) < 1 / 4
   \<and> 1 / 4 < fst (last (sort_key fst Greens))
   \<and> first_at_or_above (1 / 4) (sort_key fst Greens) = 1
   \<and> gradient (Num (1 / 4)) Greens = Inr (Color ''#b5e0b5'')
   \<and> fst (hd (sort_key fst Greens)) < 113 / 128
   \<and> 113 / 128 < fst (last (sort_key fst Greens))
   \<and> first_at_or_above (113 / 128) (sort_key fst Greens) = 2
   \<and> gradient (Num (113 / 128)) Greens = Inr (Color ''#1b6130'')"
proof -
  have s: "sort_key fst Greens = Greens" by (simp add: Greens_def)
  have h1: "Greens \<noteq> []" by (simp add: Greens_def)
  have h2: "fst (hd (sort_key fst Greens)) < 1 / 4" unfolding s by (simp add: Greens_def)
  have h3: "1 / 4 < fst (last (sort_key fst Greens))" unfolding s by (simp add: Greens_def)
  have k2: "fst (hd (sort_key fst Greens)) < 113 / 128" unfolding s by (simp add: Greens_def)
  have k3: "113 / 128 < fst (last (sort_key fst Greens))" unfolding s by (simp add: Greens_def)
  have i: "first_at_or_above (1 / 4) Greens = 1"
    by (simp add: Greens_def first_at_or_above_def)
  have j: "first_at_or_above (113 / 128) Greens = 2"
    by (simp add: Greens_def first_at_or_above_def)
  have st: "Greens ! (1 - 1) = (0, ''#F7FCF5'')" "Greens ! 1 = (1 / 2, ''#74C476'')"
    "Greens ! (2 - 1) = (1 / 2, ''#74C476'')" "Greens ! 2 = (1, ''#00441B'')"
    by (simp_all add: Greens_def)
  note th1 = gradient_interpolates [OF h1 h2 h3, unfolded s i st fst_conv snd_conv]
  note c1 = th1 [THEN conjunct2, THEN conjunct2, THEN conjunct2, THEN conjunct2,
      THEN conjunct2, THEN conjunct2, rule_format, OF fraction_quarter rgba_F7FCF5 rgba_74C476]
  have g1: "gradient (Num (1 / 4)) Greens = Inr (Color ''#b5e0b5'')"
    using c1 unfolding name_quarter by simp
  note th2 = gradient_interpolates [OF h1 k2 k3, unfolded s j st fst_conv snd_conv]
  note c2 = th2 [THEN conjunct2, THEN conjunct2, THEN conjunct2, THEN conjunct2,
      THEN conjunct2, THEN conjunct2, rule_format, OF fraction_113_128 rgba_74C476 rgba_00441B]
  have g2: "gradient (Num (113 / 128)) Greens = Inr (Color ''#1b6130'')"
    using c2 unfolding name_113_128 by simp
  have "first_at_or_above (1 / 4) (sort_key fst Greens) = 1"
    "first_at_or_above (113 / 128) (sort_key fst Greens) = 2"
    unfolding s by (rule i, rule j)
  then show ?thesis
    using h1 h2 h3 k2 k3 g1 g2 by simp
qed

section \<open>The numeric-token scan and the minus sign\<close>

lemma is_tok_simps:
  "is_tok CHR ''0''" "is_tok CHR ''1''" "is_tok CHR ''2''" "is_tok CHR ''3''" "is_tok CHR ''4''"
  "is_tok CHR ''5''" "is_tok CHR ''6''" "is_tok CHR ''7''" "is_tok CHR ''8''" "is_tok CHR ''9''"
  "is_tok CHR ''.''" "is_tok CHR ''%''"
  "\<not> is_tok CHR ''-''" "\<not> is_tok CHR '',''" "\<not> is_tok CHR '' ''" "\<not> is_tok CHR '')''"
  by (simp_all add: is_tok_def is_digit_def)

lemma is_digit_simps:
  "is_digit CHR ''0''" "is_digit CHR ''1''" "is_digit CHR ''2''" "is_digit CHR ''3''" "is_digit CHR ''4''"
  "is_digit CHR ''5''" "is_digit CHR ''6''" "is_digit CHR ''7''" "is_digit CHR ''8''" "is_digit CHR ''9''"
  "\<not> is_digit CHR ''.''" "\<not> is_digit CHR ''%''"
  by (simp_all add: is_digit_def)

lemma findall_tokens: "t \<in> set (findall s) \<Longrightarrow> t \<noteq> [] \<and> (\<forall>c \<in> set t. is_tok c)"
proof (induction s rule: findall.induct)
  case 1
  then show ?case by simp
next
  case (2 c cs)
  show ?case
  proof (cases "is_tok c")
    case True
    with "2.prems" have "t = c # takeWhile is_tok cs \<or> t \<in> set (findall (dropWhile is_tok cs))"
      by simp
    then show ?thesis
    proof
      assume "t = c # takeWhile is_tok cs"
      with True show ?thesis by (auto dest: set_takeWhileD)
    next
      assume "t \<in> set (findall (dropWhile is_tok cs))"
      with "2.IH"(1) [OF True] show ?thesis .
    qed
  next
    case False
    with "2.prems" have "t \<in> set (findall cs)" by simp
    with "2.IH"(2) [OF False] show ?thesis .
  qed
qed

lemma findall_append:
  "a = [] \<or> \<not> is_tok (last a) \<Longrightarrow> findall (a @ b) = findall a @ findall b"
proof (induction a rule: findall.induct)
  case 1
  then show ?case by simp
next
  case (2 c cs)
  show ?case
  proof (cases "is_tok c")
    case True
    with "2.prems" have ne: "cs \<noteq> []" and nl: "\<not> is_tok (last cs)"
      by (auto split: if_splits)
    then have ex: "\<exists>x \<in> set cs. \<not> is_tok x" using last_in_set by blast
    have tw: "takeWhile is_tok (cs @ b) = takeWhile is_tok cs"
      using ex by (auto simp: takeWhile_append1)
    have dw: "dropWhile is_tok (cs @ b) = dropWhile is_tok cs @ b"
      using ex by (auto simp: dropWhile_append1)
    have dne: "dropWhile is_tok cs \<noteq> []" using ex by (simp add: dropWhile_eq_Nil_conv)
    have "last (dropWhile is_tok cs) = last cs"
      using dne by (metis last_appendR takeWhile_dropWhile_id)
    with nl have "dropWhile is_tok cs = [] \<or> \<not> is_tok (last (dropWhile is_tok cs))" by simp
    from "2.IH"(1) [OF True this] True show ?thesis by (simp add: tw dw)
  next
    case False
    with "2.prems" have "cs = [] \<or> \<not> is_tok (last cs)" by (auto split: if_splits)
    from "2.IH"(2) [OF False this] False show ?thesis by simp
  qed
qed

lemma findall_minus:
  assumes "a = [] \<or> \<not> is_tok (last a)"
  shows "findall (a @ CHR ''-'' # b) = findall (a @ b)"
proof -
  have "findall (a @ CHR ''-'' # b) = findall a @ findall (CHR ''-'' # b)"
    using assms by (rule findall_append)
  also have "\<dots> = findall a @ findall b" by (simp add: is_tok_simps)
  also have "\<dots> = findall (a @ b)" using assms by (rule findall_append [symmetric])
  finally show ?thesis .
qed

lemma str_split_nonempty: "str_split sep s \<noteq> []"
  by (induction s) (auto split: list.splits)

lemma str_split_Cons:
  "str_split sep (c # s) =
     (if c = sep then [] # str_split sep s
      else (c # hd (str_split sep s)) # tl (str_split sep s))"
  using str_split_nonempty [of sep s] by (cases "str_split sep s") auto

lemma hd_str_split: "hd (str_split sep s) = takeWhile (\<lambda>c. c \<noteq> sep) s"
  by (induction s) (simp_all add: str_split_Cons del: str_split.simps(2))

lemma getitem_Cons_1: "getitem (x # xs) 1 = getitem xs 0"
  by (cases xs) (simp_all add: getitem_def)

lemma body_after_paren:
  "CHR ''('' \<notin> set pre \<Longrightarrow>
   getitem (str_split CHR ''('' (pre @ CHR ''('' # s)) 1 = Inr (takeWhile (\<lambda>c. c \<noteq> CHR ''('') s)"
proof (induction pre)
  case Nil
  show ?case
    using str_split_nonempty [of "CHR ''(''" s]
    by (simp add: getitem_Cons_1 getitem_first hd_str_split)
next
  case (Cons c pre)
  then have c: "c \<noteq> CHR ''(''" and IH: "getitem (str_split CHR ''('' (pre @ CHR ''('' # s)) 1
      = Inr (takeWhile (\<lambda>c. c \<noteq> CHR ''('') s)" by auto
  have "str_split CHR ''('' ((c # pre) @ CHR ''('' # s)
        = (c # hd (str_split CHR ''('' (pre @ CHR ''('' # s))) # tl (str_split CHR ''('' (pre @ CHR ''('' # s))"
    using c by (simp add: str_split_Cons del: str_split.simps)
  moreover have "getitem (x # tl ys) 1 = getitem ys 1" if "ys \<noteq> []" for x :: string and ys
    using that by (cases ys) (simp_all add: getitem_Cons_1)
  ultimately show ?case
    using IH str_split_nonempty [of "CHR ''(''" "pre @ CHR ''('' # s"] by simp
qed

lemma body_minus:
  assumes "a = [] \<or> \<not> is_tok (last a)"
  shows "findall (takeWhile (\<lambda>c. c \<noteq> CHR ''('') (a @ CHR ''-'' # b))
         = findall (takeWhile (\<lambda>c. c \<noteq> CHR ''('') (a @ b))"
proof (cases "CHR ''('' \<in> set a")
  case True
  then have "\<exists>x \<in> set a. \<not> x \<noteq> CHR ''(''" by auto
  then show ?thesis by (simp add: takeWhile_append1)
next
  case False
  then have "\<forall>x \<in> set a. x \<noteq> CHR ''(''" by auto
  then have "takeWhile (\<lambda>c. c \<noteq> CHR ''('') (a @ CHR ''-'' # b) = a @ CHR ''-'' # takeWhile (\<lambda>c. c \<noteq> CHR ''('') b"
    and "takeWhile (\<lambda>c. c \<noteq> CHR ''('') (a @ b) = a @ takeWhile (\<lambda>c. c \<noteq> CHR ''('') b"
    by (simp_all add: takeWhile_append2)
  then show ?thesis using findall_minus [OF assms] by simp
qed

lemma components_minus:
  assumes "a = [] \<or> \<not> is_tok (last a)"
  shows "rgba_components (''rgb('' @ a @ CHR ''-'' # b) = rgba_components (''rgb('' @ a @ b)"
    and "rgba_components (''rgba('' @ a @ CHR ''-'' # b) = rgba_components (''rgba('' @ a @ b)"
    and "rgba_components (''hsl('' @ a @ CHR ''-'' # b) = rgba_components (''hsl('' @ a @ b)"
    and "rgba_components (''hsla('' @ a @ CHR ''-'' # b) = rgba_components (''hsla('' @ a @ b)"
proof -
  note b = body_minus [OF assms, of b]
  have 1: "getitem (str_split CHR ''('' (''rgb('' @ s)) 1 = Inr (takeWhile (\<lambda>c. c \<noteq> CHR ''('') s)" for s
    using body_after_paren [of "''rgb''" s] by simp
  have 2: "getitem (str_split CHR ''('' (''rgba('' @ s)) 1 = Inr (takeWhile (\<lambda>c. c \<noteq> CHR ''('') s)" for s
    using body_after_paren [of "''rgba''" s] by simp
  have 3: "getitem (str_split CHR ''('' (''hsl('' @ s)) 1 = Inr (takeWhile (\<lambda>c. c \<noteq> CHR ''('') s)" for s
    using body_after_paren [of "''hsl''" s] by simp
  have 4: "getitem (str_split CHR ''('' (''hsla('' @ s)) 1 = Inr (takeWhile (\<lambda>c. c \<noteq> CHR ''('') s)" for s
    using body_after_paren [of "''hsla''" s] by simp
  show "rgba_components (''rgb('' @ a @ CHR ''-'' # b) = rgba_components (''rgb('' @ a @ b)"
    using 1 [of "a @ CHR ''-'' # b"] 1 [of "a @ b"] b
    by (simp add: rgba_components_def startswith_def del: str_split.simps)
  show "rgba_components (''rgba('' @ a @ CHR ''-'' # b) = rgba_components (''rgba('' @ a @ b)"
    using 2 [of "a @ CHR ''-'' # b"] 2 [of "a @ b"] b
    by (simp add: rgba_components_def startswith_def del: str_split.simps)
  show "rgba_components (''hsl('' @ a @ CHR ''-'' # b) = rgba_components (''hsl('' @ a @ b)"
    using 3 [of "a @ CHR ''-'' # b"] 3 [of "a @ b"] b
    by (simp add: rgba_components_def startswith_def del: str_split.simps)
  show "rgba_components (''hsla('' @ a @ CHR ''-'' # b) = rgba_components (''hsla('' @ a @ b)"
    using 4 [of "a @ CHR ''-'' # b"] 4 [of "a @ b"] b
    by (simp add: rgba_components_def startswith_def del: str_split.simps)
qed

lemma pyfloat_255: "pyfloat ''255'' = Inr (Fin 255)"
  by (simp add: pyfloat_def decimal_def digit_val_def is_digit_simps float_eval)

lemma pyfloat_0: "pyfloat ''0'' = Inr (Fin 0)"
  by (simp add: pyfloat_def decimal_def digit_val_def is_digit_simps float_eval)

lemma pyfloat_1: "pyfloat ''1'' = Inr (Fin 1)"
  by (simp add: pyfloat_def decimal_def digit_val_def is_digit_simps float_eval)

lemma findall_255_0_0: "findall ''255, 0, 0)'' = [''255'', ''0'', ''0'']"
  by (simp add: is_tok_simps)

lemma components_rgb_255: "rgba_components ''rgb(255, 0, 0)'' = Inr [Fin 1, Fin 0, Fin 0]"
  using body_after_paren [of "''rgb''" "''255, 0, 0)''"]
  by (simp add: rgba_components_def startswith_def findall_255_0_0 endswith_def
      pyfloat_255 pyfloat_0 float_eval del: str_split.simps findall.simps)

lemma rgba_rgb_255: "rgba ''rgb(255, 0, 0)'' = Inr (Fin 1, Fin 0, Fin 0, Fin 1)"
  by (simp add: rgba_def components_rgb_255 clamp_def)

text \<open>
  Claim C10.  The scan of \<^verbatim>\<open>rgb(\<close>, \<^verbatim>\<open>rgba(\<close>, \<^verbatim>\<open>hsl(\<close> and \<^verbatim>\<open>hsla(\<close> literals yields only
  non-empty tokens made of digits, dots and percent signs; a minus sign is no such
  character, so a minus sign in front of a component (at the start of the arguments, or
  after a character that is not part of a token) is skipped: the scan yields the same
  tokens with and without it, and \<^verbatim>\<open>rgba\<close> collects the same components.  For example
  \<^verbatim>\<open>rgb(-255, 0, 0)\<close> parses to \<open>(1, 0, 0, 1)\<close>, as \<^verbatim>\<open>rgb(255, 0, 0)\<close> does: it neither
  fails nor clamps the negative value to 0.
\<close>

theorem minus_sign_skipped:
  assumes "a = [] \<or> \<not> is_tok (last a)"
  shows "(\<forall>t \<in> set (findall s). t \<noteq> [] \<and> (\<forall>c \<in> set t. is_tok c))
       \<and> \<not> is_tok CHR ''-''
       \<and> findall (a @ CHR ''-'' # b) = findall (a @ b)
       \<and> rgba_components (''rgb('' @ a @ CHR ''-'' # b) = rgba_components (''rgb('' @ a @ b)
       \<and> rgba_components (''rgba('' @ a @ CHR ''-'' # b) = rgba_components (''rgba('' @ a @ b)
       \<and> rgba_components (''hsl('' @ a @ CHR ''-'' # b) = rgba_components (''hsl('' @ a @ b)
       \<and> rgba_components (''hsla('' @ a @ CHR ''-'' # b) = rgba_components (''hsla('' @ a @ b)
       \<and> rgba ''rgb(-255, 0, 0)'' = Inr (Fin 1, Fin 0, Fin 0, Fin 1)
       \<and> rgba ''rgb(255, 0, 0)'' = Inr (Fin 1, Fin 0, Fin 0, Fin 1)"
proof -
  have "rgba_components ''rgb(-255, 0, 0)'' = rgba_components ''rgb(255, 0, 0)''"
    using components_minus(1) [of "[]" "''255, 0, 0)''"] by simp
  then have m: "rgba ''rgb(-255, 0, 0)'' = Inr (Fin 1, Fin 0, Fin 0, Fin 1)"
    by (simp add: rgba_def components_rgb_255 clamp_def)
  have t: "\<forall>t \<in> set (findall s). t \<noteq> [] \<and> (\<forall>c \<in> set t. is_tok c)"
    using findall_tokens by blast
  show ?thesis
    using t is_tok_simps(13) findall_minus [OF assms, of b] components_minus [OF assms, of b]
      m rgba_rgb_255
    by (intro conjI)
qed

theorem minus_sign_skipped_witness:
  "findall ''-255, 0, 0)'' = [''255'', ''0'', ''0'']
   \<and> findall ''255, -3, 0)'' = findall ''255, 3, 0)''
   \<and> rgba_components ''rgb(-255, 0, 0)'' = Inr [Fin 1, Fin 0, Fin 0]
   \<and> rgba_components ''hsl(255, -3, 0)'' = rgba_components ''hsl(255, 3, 0)''"
proof -
  have h1: "([] :: string) = [] \<or> \<not> is_tok (last [])" by simp
  have h2: "''255, '' = [] \<or> \<not> is_tok (last ''255, '')" by (simp add: is_tok_simps)
  note th1 = minus_sign_skipped [OF h1, of _ "''255, 0, 0)''"]
  note th2 = minus_sign_skipped [OF h2, of _ "''3, 0)''"]
  have 1: "findall ''-255, 0, 0)'' = findall ''255, 0, 0)''"
    using th1 [THEN conjunct2, THEN conjunct2, THEN conjunct1] by simp
  have 2: "findall ''255, -3, 0)'' = findall ''255, 3, 0)''"
    using th2 [THEN conjunct2, THEN conjunct2, THEN conjunct1] by simp
  have 3: "rgba_components ''rgb(-255, 0, 0)'' = rgba_components ''rgb(255, 0, 0)''"
    using th1 [THEN conjunct2, THEN conjunct2, THEN conjunct2, THEN conjunct1] by simp
  have 4: "rgba_components ''hsl(255, -3, 0)'' = rgba_components ''hsl(255, 3, 0)''"
    using th2 [THEN conjunct2, THEN conjunct2, THEN conjunct2, THEN conjunct2, THEN conjunct2,
        THEN conjunct1] by simp
  show ?thesis
    unfolding 1 2 3 4 findall_255_0_0 components_rgb_255 by simp
qed

section \<open>A literal with too few components\<close>

text \<open>
  Claim C3 fails of the code: the literal \<^verbatim>\<open>hsl(1)\<close> has one component, yet \<^verbatim>\<open>rgba\<close> does
  not raise its \<^verbatim>\<open>invalid color\<close> error.  The \<^verbatim>\<open>hsl(\<close> branch reads \<^verbatim>\<open>result[1]\<close> before the
  number of components is checked and raises \<^verbatim>\<open>IndexError\<close>; the \<^verbatim>\<open>rgb(\<close> branch on the
  same arguments reaches the check and raises the \<^verbatim>\<open>invalid color\<close> error.
\<close>

theorem rgba_hsl_IndexError:
  "rgba ''hsl(1)'' = Inl IndexError \<and> rgba ''rgb(1)'' = Inl (InvalidColor ''rgb(1)'')"
  using body_after_paren [of "''hsl''" "''1)''"] body_after_paren [of "''rgb''" "''1)''"]
  by (simp add: rgba_def rgba_components_def startswith_def
      is_tok_simps endswith_def pyfloat_1 hsl_convert_def getitem_def float_eval
      del: str_split.simps)

section \<open>Rounding to a double\<close>

lemma bits_bounds: "0 < n \<Longrightarrow> 2 ^ (bits n - 1) \<le> n \<and> n < 2 ^ bits n"
proof (induction n rule: bits.induct)
  case (1 n)
  show ?case
  proof (cases "n div 2 = 0")
    case True
    with 1 have "n = 1" by (auto simp: div_eq_0_iff)
    then show ?thesis by (simp add: bits.simps)
  next
    case False
    then have pos: "0 < n div 2" by simp
    from 1 have n0: "n \<noteq> 0" by simp
    from 1(1) [OF n0 pos] have ih: "2 ^ (bits (n div 2) - 1) \<le> n div 2" "n div 2 < 2 ^ bits (n div 2)"
      by simp_all
    have b: "bits n = Suc (bits (n div 2))" using n0 by (subst bits.simps) simp
    have bp: "0 < bits (n div 2)" using pos by (subst bits.simps) simp
    have "(2::nat) ^ (bits n - 1) = 2 * 2 ^ (bits (n div 2) - 1)"
      using bp b by (cases "bits (n div 2)") simp_all
    also have "\<dots> \<le> 2 * (n div 2)" using ih(1) by simp
    also have "\<dots> \<le> n" by simp
    finally have lo: "2 ^ (bits n - 1) \<le> n" .
    have "n < 2 * (n div 2) + 2" by presburger
    also have "\<dots> \<le> 2 * 2 ^ bits (n div 2)" using ih(2) by simp
    finally have "n < 2 ^ bits n" by (simp add: b)
    with lo show ?thesis by simp
  qed
qed

lemma bits_pos: "0 < n \<Longrightarrow> 0 < bits n"
  by (subst bits.simps) simp

lemma ilog2_bounds:
  assumes "0 < a"
  shows "2 powi (ilog2 a) \<le> a \<and> a < 2 powi (ilog2 a + 1)"
proof (cases "1 \<le> a")
  case True
  define n where "n = nat \<lfloor>a\<rfloor>"
  have "0 < n" using True by (simp add: n_def)
  moreover have "real n \<le> a" "a < real n + 1" using True unfolding n_def by linarith+
  ultimately have n: "0 < n" "real n \<le> a" "a < real n + 1" .
  have il: "ilog2 a = int (bits n) - 1" using True by (simp add: ilog2_def n_def)
  note b = bits_bounds [OF n(1)] bits_pos [OF n(1)]
  have e1: "(2::real) powi (ilog2 a) = 2 ^ (bits n - 1)"
    using b(2) by (simp add: il power_int_def of_nat_diff nat_diff_distrib)
  have e2: "(2::real) powi (ilog2 a + 1) = 2 ^ bits n"
    by (simp add: il power_int_def)
  have "(2::real) ^ (bits n - 1) \<le> real n"
    using b(1) by (metis of_nat_le_iff of_nat_numeral of_nat_power)
  moreover have "real n + 1 \<le> 2 ^ bits n"
    using b(1) by (metis Suc_leI of_nat_Suc of_nat_le_iff of_nat_numeral of_nat_power add.commute plus_1_eq_Suc)
  ultimately show ?thesis using n e1 e2 by linarith
next
  case False
  define m where "m = \<lceil>1 / a\<rceil>"
  define n where "n = nat (m - 1)"
  have inv: "1 < 1 / a" using False assms by simp
  then have m2: "2 \<le> m" unfolding m_def by linarith
  have m: "1 / a \<le> of_int m" "of_int m - 1 < 1 / a" unfolding m_def by linarith+
  have n: "0 < n" "real n = of_int m - 1" using m2 by (simp_all add: n_def)
  have il: "ilog2 a = - int (bits n)" using False by (simp add: ilog2_def n_def m_def)
  note b = bits_bounds [OF n(1)] bits_pos [OF n(1)]
  have e1: "(2::real) powi (ilog2 a) = 1 / 2 ^ bits n"
    using b(2) by (simp add: il power_int_def field_simps)
  have e2: "(2::real) powi (ilog2 a + 1) = 1 / 2 ^ (bits n - 1)"
    using b(2) by (cases "bits n") (simp_all add: il power_int_def field_simps nat_diff_distrib)
  have lo: "(2::real) ^ (bits n - 1) \<le> real n"
    using b(1) by (metis of_nat_le_iff of_nat_numeral of_nat_power)
  have hi: "real n + 1 \<le> 2 ^ bits n"
    using b(1) by (metis Suc_leI of_nat_Suc of_nat_le_iff of_nat_numeral of_nat_power add.commute plus_1_eq_Suc)
  have "1 / a \<le> 2 ^ bits n" using m(1) n(2) hi by linarith
  then have 1: "1 / 2 ^ bits n \<le> a" using assms by (simp add: field_simps)
  have "(2::real) ^ (bits n - 1) < 1 / a" using m(2) n(2) lo by linarith
  then have 2: "a < 1 / 2 ^ (bits n - 1)" using assms by (simp add: field_simps)
  from 1 2 show ?thesis by (simp add: e1 e2)
qed

lemma pow2_less_D: "(2::real) powi k < 2 powi m \<Longrightarrow> k < m"
  using power_int_increasing [of m k "2::real"] by (cases "k < m") auto

lemma ilog2_unique:
  assumes "2 powi k \<le> a" "a < 2 powi (k + 1)"
  shows "ilog2 a = k"
proof -
  have pos: "0 < a" using assms(1) by (smt (verit) zero_less_power_int)
  note b = ilog2_bounds [OF pos]
  have "(2::real) powi k < 2 powi (ilog2 a + 1)" using assms(1) b by linarith
  then have 1: "k < ilog2 a + 1" by (rule pow2_less_D)
  have "(2::real) powi (ilog2 a) < 2 powi (k + 1)" using assms(2) b by linarith
  then have 2: "ilog2 a < k + 1" by (rule pow2_less_D)
  from 1 2 show ?thesis by simp
qed


lemma round_even_cases:
  "round_even y = \<lfloor>y\<rfloor> \<or> round_even y = \<lfloor>y\<rfloor> + 1"
  by (simp add: round_even_def Let_def)

lemma round_even_le: "y \<le> of_int n \<Longrightarrow> round_even y \<le> n"
proof -
  assume a: "y \<le> of_int n"
  show ?thesis
  proof (cases "y = of_int n")
    case True
    then show ?thesis by (simp add: round_even_def)
  next
    case False
    with a have "y < of_int n" by simp
    then have "\<lfloor>y\<rfloor> < n" by (simp add: floor_less_iff)
    with round_even_cases [of y] show ?thesis by auto
  qed
qed

lemma round_even_ge: "of_int n \<le> y \<Longrightarrow> n \<le> round_even y"
proof -
  assume "of_int n \<le> y"
  then have "n \<le> \<lfloor>y\<rfloor>" by (simp add: le_floor_iff)
  with round_even_cases [of y] show ?thesis by auto
qed

lemma round_even_error: "\<bar>of_int (round_even y) - y\<bar> \<le> 1 / 2"
proof -
  have "of_int \<lfloor>y\<rfloor> \<le> y" "y < of_int \<lfloor>y\<rfloor> + 1" by linarith+
  then show ?thesis
    by (auto simp: round_even_def Let_def)
qed

lemma round_even_near:
  assumes "of_int n - 1 / 2 < y" "y < of_int n + 1 / 2"
  shows "round_even y = n"
proof -
  have "\<bar>of_int (round_even y) - of_int n\<bar> < (1::real)"
    using round_even_error [of y] assms by linarith
  then have "\<bar>round_even y - n\<bar> < 1"
    by (metis of_int_1 of_int_abs of_int_diff of_int_less_iff)
  then show ?thesis by simp
qed

lemma ulp_exp_small:
  assumes "0 < x" "x < 2 ^ 53"
  shows "ulp_exp x \<le> 0"
proof -
  have "(2::real) powi ilog2 x \<le> x" using ilog2_bounds [OF assms(1)] by simp
  also have "x < 2 powi 53" using assms(2) by simp
  finally have "ilog2 x < 53" by (rule pow2_less_D)
  then show ?thesis using assms(1) by (simp add: ulp_exp_def)
qed

lemma grid_int:
  assumes "e \<le> 0"
  shows "of_int n / 2 powi e = (of_int (n * 2 ^ nat (- e)) :: real)"
  using assms by (simp add: power_int_def field_simps)

lemma fl_le_int:
  assumes "0 < x" "x \<le> of_int n" "x < 2 ^ 53"
  shows "fl x \<le> of_int n"
proof -
  define e where "e = ulp_exp x"
  have e: "e \<le> 0" using ulp_exp_small [OF assms(1,3)] by (simp add: e_def)
  have pos: "(0::real) < 2 powi e" by simp
  have "x / 2 powi e \<le> of_int n / 2 powi e"
    using assms(2) pos by (simp add: divide_right_mono)
  then have "x / 2 powi e \<le> of_int (n * 2 ^ nat (- e))" by (simp only: grid_int [OF e])
  then have "round_even (x / 2 powi e) \<le> n * 2 ^ nat (- e)" by (rule round_even_le)
  then have "(of_int (round_even (x / 2 powi e)) :: real) \<le> of_int (n * 2 ^ nat (- e))"
    by (simp only: of_int_le_iff)
  then have "of_int (round_even (x / 2 powi e)) \<le> (of_int n / 2 powi e :: real)"
    by (simp only: grid_int [OF e])
  then have "of_int (round_even (x / 2 powi e)) * 2 powi e \<le> (of_int n :: real)"
    using pos by (simp add: field_simps)
  then show ?thesis using assms(1) by (simp add: fl_def e_def)
qed

lemma fl_ge_int:
  assumes "0 < x" "of_int n \<le> x" "x < 2 ^ 53"
  shows "of_int n \<le> fl x"
proof -
  define e where "e = ulp_exp x"
  have e: "e \<le> 0" using ulp_exp_small [OF assms(1,3)] by (simp add: e_def)
  have pos: "(0::real) < 2 powi e" by simp
  have "of_int n / 2 powi e \<le> x / 2 powi e"
    using assms(2) pos by (simp add: divide_right_mono)
  then have "of_int (n * 2 ^ nat (- e)) \<le> x / 2 powi e" by (simp only: grid_int [OF e])
  then have "n * 2 ^ nat (- e) \<le> round_even (x / 2 powi e)" by (rule round_even_ge)
  then have "(of_int (n * 2 ^ nat (- e)) :: real) \<le> of_int (round_even (x / 2 powi e))"
    by (simp only: of_int_le_iff)
  then have "(of_int n / 2 powi e :: real) \<le> of_int (round_even (x / 2 powi e))"
    by (simp only: grid_int [OF e])
  then have "(of_int n :: real) \<le> of_int (round_even (x / 2 powi e)) * 2 powi e"
    using pos by (simp add: field_simps)
  then show ?thesis using assms(1) by (simp add: fl_def e_def)
qed

lemma fl_byte:
  assumes "0 \<le> y" "y \<le> 255"
  shows "0 \<le> fl y \<and> fl y \<le> 255"
proof (cases "y = 0")
  case True
  then show ?thesis by (simp add: fl_def)
next
  case False
  with assms have pos: "0 < y" and lt: "y < 2 ^ 53" by simp_all
  from fl_le_int [OF pos _ lt, of 255] fl_ge_int [OF pos _ lt, of 0] assms
  show ?thesis by simp
qed

lemma rnd_byte:
  assumes "0 \<le> y" "y \<le> 255"
  shows "rnd y = Fin (fl y)"
  using fl_byte [OF assms] by (simp add: rnd_def Let_def)

section \<open>Formatting an opaque colour\<close>

lemma of_char_hexchar: "d < 16 \<Longrightarrow> (of_char (hexchar d) :: nat) = (if d < 10 then 48 + d else 87 + d)"
  by (simp add: hexchar_def)

lemma hexchar_inj: "d < 16 \<Longrightarrow> e < 16 \<Longrightarrow> hexchar d = hexchar e \<longleftrightarrow> d = e"
proof
  assume d: "d < 16" and e: "e < 16" and eq: "hexchar d = hexchar e"
  then have "(of_char (hexchar d) :: nat) = of_char (hexchar e)" by simp
  then show "d = e"
    using d e by (simp add: of_char_hexchar split: if_splits)
qed simp

lemma is_word_hexchar: "d < 16 \<Longrightarrow> is_word (hexchar d)"
  by (auto simp: is_word_def Let_def of_char_hexchar)

lemma hexchar_not_hash: "d < 16 \<Longrightarrow> hexchar d \<noteq> CHR ''#''"
proof
  assume d: "d < 16" and "hexchar d = CHR ''#''"
  then have "(of_char (hexchar d) :: nat) = of_char CHR ''#''" by simp
  then show False using d by (simp add: of_char_hexchar split: if_splits)
qed

lemma shorten_hex:
  assumes "R < 256" "G < 256" "B < 256"
  shows "shorten (''#'' @ hex2 R @ hex2 G @ hex2 B)
         = (if R div 16 = R mod 16 \<and> G div 16 = G mod 16 \<and> B div 16 = B mod 16
            then [CHR ''#'', hexchar (R div 16), hexchar (G div 16), hexchar (B div 16)]
            else ''#'' @ hex2 R @ hex2 G @ hex2 B)"
proof -
  have d: "R div 16 < 16" "R mod 16 < 16" "G div 16 < 16" "G mod 16 < 16" "B div 16 < 16" "B mod 16 < 16"
    using assms by (simp_all add: less_mult_imp_div_less)
  show ?thesis
    using d by (auto simp: hex2_def is_word_hexchar hexchar_inj)
qed

lemma clamp_Fin: "0 \<le> x \<Longrightarrow> x \<le> 1 \<Longrightarrow> clamp (Fin x) = Fin x"
  by (simp add: clamp_def)

lemma clamp_opaque: "fleq (Fin 1) a \<Longrightarrow> clamp a = Fin 1"
  by (cases a) (auto simp: clamp_def fleq_def)

lemma byte_of_unit:
  assumes "0 \<le> c" "c \<le> 1"
  shows "format_int (fmul (Fin 255) (Fin c)) = Inr (nat (trunc (fl (255 * c))))"
    and "nat (trunc (fl (255 * c))) < 256"
proof -
  have b: "0 \<le> 255 * c" "255 * c \<le> 255" using assms by simp_all
  show "format_int (fmul (Fin 255) (Fin c)) = Inr (nat (trunc (fl (255 * c))))"
    by (simp add: rnd_byte [OF b])
  have "trunc (fl (255 * c)) \<le> 255"
    using fl_byte [OF b] by (simp add: trunc_def floor_le_iff)
  then show "nat (trunc (fl (255 * c))) < 256" by simp
qed

text \<open>
  Claim C5, as amended.  For \<open>r\<close>, \<open>g\<close>, \<open>b\<close> between 0 and 1 and an alpha that is at least 1,
  \<^verbatim>\<open>name\<close> formats the three bytes \<open>int(255 * component)\<close> (the float product, truncated;
  each is below 256) as \<^verbatim>\<open>#rrggbb\<close>, and gives the three-digit shorthand exactly when each
  of the three bytes has two equal hexadecimal digits, whether or not the three bytes
  differ from one another; otherwise it gives the six digits.
\<close>

theorem name_opaque:
  assumes "0 \<le> r" "r \<le> 1" "0 \<le> g" "g \<le> 1" "0 \<le> b" "b \<le> 1" "fleq (Fin 1) a"
  shows "nat (trunc (fl (255 * r))) < 256 \<and> nat (trunc (fl (255 * g))) < 256
       \<and> nat (trunc (fl (255 * b))) < 256
       \<and> name (Fin r) (Fin g) (Fin b) a
         = Inr (if nat (trunc (fl (255 * r))) div 16 = nat (trunc (fl (255 * r))) mod 16
                 \<and> nat (trunc (fl (255 * g))) div 16 = nat (trunc (fl (255 * g))) mod 16
                 \<and> nat (trunc (fl (255 * b))) div 16 = nat (trunc (fl (255 * b))) mod 16
                then [CHR ''#'', hexchar (nat (trunc (fl (255 * r))) div 16),
                      hexchar (nat (trunc (fl (255 * g))) div 16),
                      hexchar (nat (trunc (fl (255 * b))) div 16)]
                else ''#'' @ hex2 (nat (trunc (fl (255 * r)))) @ hex2 (nat (trunc (fl (255 * g))))
                       @ hex2 (nat (trunc (fl (255 * b)))))"
proof -
  note R = byte_of_unit [OF assms(1,2)]
  note G = byte_of_unit [OF assms(3,4)]
  note B = byte_of_unit [OF assms(5,6)]
  have "name (Fin r) (Fin g) (Fin b) a
        = Inr (shorten (''#'' @ hex2 (nat (trunc (fl (255 * r)))) @ hex2 (nat (trunc (fl (255 * g))))
                          @ hex2 (nat (trunc (fl (255 * b))))))"
    using assms
    by (simp add: name_def Let_def clamp_Fin clamp_opaque R(1) G(1) B(1) fleq_def
        del: shorten.simps fmul.simps)
  then show ?thesis
    using R(2) G(2) B(2) by (simp only: shorten_hex [OF R(2) G(2) B(2)] simp_thms)
qed

text \<open>
  Claim C5 as stated fails: it says that \<^verbatim>\<open>#ff0000\<close> is not collapsed and that
  \<^verbatim>\<open>name(1, 0, 0)\<close> is \<^verbatim>\<open>#ff0000\<close>.  Each of the bytes \<^verbatim>\<open>ff\<close>, \<^verbatim>\<open>00\<close>, \<^verbatim>\<open>00\<close> is a doubled
  digit, the pattern matches, and \<^verbatim>\<open>name(1, 0, 0)\<close> is \<^verbatim>\<open>#f00\<close>.
\<close>

theorem name_red_counterexample:
  "name (Fin 1) (Fin 0) (Fin 0) (Fin 1) = Inr ''#f00''
   \<and> name (Fin 1) (Fin 0) (Fin 0) (Fin 1) \<noteq> Inr ''#ff0000''"
  by (simp add: name_def clamp_def fleq_def trunc_def hex2_def hexchar_def is_word_def
      char_of_eq_iff float_eval)

theorem name_opaque_witness:
  "name (Fin 1) (Fin 0) (Fin 0) (Fin 1) = Inr ''#f00''
   \<and> name (Fin 1) (Fin 0) (Fin (4803839602528529 / 72057594037927936)) (Fin 2) = Inr ''#f01''
   \<and> name (Fin (1 / 2)) (Fin 0) (Fin 1) PInf = Inr ''#7f00ff''"
proof -
  have a: "fleq (Fin 1) (Fin 1)" "fleq (Fin 1) (Fin 2)" "fleq (Fin 1) PInf"
    by (simp_all add: fleq_def)
  have v: "fl (255 * 1) = 255" "fl (255 * 0) = 0" "fl (255 * (4803839602528529 / 72057594037927936)) = 17"
    "fl (255 * (1 / 2)) = 255 / 2"
    by (simp_all add: float_eval)
  have t: "nat (trunc 255) = 255" "nat (trunc 0) = 0" "nat (trunc 17) = 17" "nat (trunc (255 / 2)) = 127"
    by (simp_all add: trunc_def)
  have h: "hexchar 15 = CHR ''f''" "hexchar 0 = CHR ''0''" "hexchar (Suc 0) = CHR ''1''"
    "hexchar 7 = CHR ''7''"
    by (simp_all add: hexchar_def char_of_eq_iff)
  have 1: "name (Fin 1) (Fin 0) (Fin 0) (Fin 1) = Inr ''#f00''"
    using name_opaque [of 1 0 0 "Fin 1"] a unfolding v t by (simp add: h)
  have 2: "name (Fin 1) (Fin 0) (Fin (4803839602528529 / 72057594037927936)) (Fin 2) = Inr ''#f01''"
    using name_opaque [of 1 0 "4803839602528529 / 72057594037927936" "Fin 2"] a unfolding v t by (simp add: h)
  have 3: "name (Fin (1 / 2)) (Fin 0) (Fin 1) PInf = Inr ''#7f00ff''"
    using name_opaque [of "1 / 2" 0 1 PInf] a unfolding v t by (simp add: h hex2_def)
  from 1 2 3 show ?thesis by simp
qed

end
